theory Spec2Isabelle
  imports Complex_Main "HOL-Library.Sublist" "HOL-Library.Multiset"
begin

section \<open>JavaScript values\<close>

text \<open>
  The program is the single React Native screen \<^verbatim>\<open>src/app/index.tsx\<close>.
  A JavaScript string is a sequence of UTF-16 code units; it is modelled as a list of
  code units, so that the Cyrillic literals of the source can be written down.
  A JavaScript number is modelled as a real (or as a natural number or integer where the
  source only ever holds a count or an index): rounding error of IEEE doubles, NaN and
  the infinities are outside the model. For that reason the marker sampler
  \<^verbatim>\<open>sampleEveryMeters\<close> is left out: which of its targets lie below the total length is
  decided by the rounding of the haversine sums.
\<close>

type_synonym jsstring = "nat list"

definition asc :: "string \<Rightarrow> jsstring" where
  "asc s = map of_char s"

text \<open>Template interpolation of a non-negative integer: its decimal digits.\<close>

function showNat :: "nat \<Rightarrow> jsstring" where
  "showNat n = (if n < 10 then [48 + n] else showNat (n div 10) @ [48 + n mod 10])"
  by pat_completeness auto
termination
  by (relation "measure id") auto

declare showNat.simps [simp del]

text \<open>Interpolation of an integer (plain decimal notation, which JavaScript uses for
  every integral number below \<open>10^21\<close> in magnitude).\<close>

definition showInt :: "int \<Rightarrow> jsstring" where
  "showInt i = (if i < 0 then 45 # showNat (nat (- i)) else showNat (nat i))"

text \<open>\<^verbatim>\<open>Math.round\<close>: the nearest integer, a half rounded towards plus infinity.\<close>

definition mathRound :: "real \<Rightarrow> int" where
  "mathRound x = \<lfloor>x + 1 / 2\<rfloor>"

text \<open>\<^verbatim>\<open>x.toFixed(3)\<close>: the sign, then the nearest number of thousandths of \<open>\<bar>x\<bar>\<close>
  (the larger one on a tie) printed with three decimals.\<close>

definition toFixed3 :: "real \<Rightarrow> jsstring" where
  "toFixed3 x =
     (let n = nat \<lfloor>\<bar>x\<bar> * 1000 + 1 / 2\<rfloor>;
          f = n mod 1000
      in (if x < 0 then [45] else []) @ showNat (n div 1000) @
         [46, 48 + f div 100, 48 + (f div 10) mod 10, 48 + f mod 10])"

text \<open>\<^verbatim>\<open>parts.join(sep)\<close>.\<close>

fun joinWith :: "jsstring \<Rightarrow> jsstring list \<Rightarrow> jsstring" where
  "joinWith sep [] = []"
| "joinWith sep [x] = x"
| "joinWith sep (x # y # ys) = x @ sep @ joinWith sep (y # ys)"

text \<open>An awaited call either throws (an error whose \<^verbatim>\<open>message\<close> may be missing) or
  returns. An HTTP exchange either throws in \<^verbatim>\<open>fetch\<close> (network failure, the abort of
  \<^verbatim>\<open>fetchWithTimeout\<close>) or yields a response with a status and a body whose
  \<^verbatim>\<open>json()\<close> is itself awaited.\<close>

datatype 'a js_result = Threw "jsstring option" | Returned 'a

datatype 'a http = HttpThrew "jsstring option" | HttpResp nat "'a js_result"

text \<open>\<^verbatim>\<open>res.ok\<close>: the status is in the range 200 to 299.\<close>

definition res_ok :: "nat \<Rightarrow> bool" where
  "res_ok st = (200 \<le> st \<and> st \<le> 299)"

section \<open>Types\<close>

record Coord =
  lat :: real
  lon :: real

record XY =
  latitude :: real
  longitude :: real

datatype StatusKey = StatusIdle | StatusLoading | StatusOk | StatusError

record OSRMManeuver =
  location :: "real \<times> real"
  mtype :: jsstring
  modifier :: "jsstring option"

record OSRMStep =
  step_distance :: real
  step_duration :: real
  name :: jsstring
  step_geometry :: "(real \<times> real) list"
  maneuver :: OSRMManeuver

record OSRMLeg =
  leg_distance :: real
  leg_duration :: real
  summary :: jsstring
  steps :: "OSRMStep list"

text \<open>\<open>geometry\<close> holds \<^verbatim>\<open>geometry.coordinates\<close>, pairs of longitude and latitude.\<close>

record OSRMRoute =
  geometry :: "(real \<times> real) list"
  distance :: real
  duration :: real
  weight :: real
  weight_name :: jsstring
  legs :: "OSRMLeg list"

record OSRMResponse =
  code :: jsstring
  resp_routes :: "OSRMRoute list option"
  message :: "jsstring option"

record NearestWaypoint =
  wp_location :: "(real \<times> real) option"
  wp_hint :: "jsstring option"

record NearestResp =
  n_code :: jsstring
  n_waypoints :: "NearestWaypoint list option"

record TurnNode =
  node_id :: jsstring
  coordinate :: XY
  street :: jsstring
  maneuverType :: jsstring
  node_modifier :: "jsstring option"
  stepDistance :: real
  stepDuration :: real
  routeIndex :: nat

record RouteView =
  view_id :: jsstring
  index :: nat
  coords :: "XY list"
  view_distance :: real
  view_duration :: real
  color :: jsstring
  isPrimary :: bool
  turnNodes :: "TurnNode list"

section \<open>Utils\<close>

definition toXY :: "real \<times> real \<Rightarrow> XY" where
  "toXY coord = \<lparr>latitude = snd coord, longitude = fst coord\<rparr>"

definition COLORS :: "jsstring list" where
  "COLORS = [asc ''#0A84FF'', asc ''#32D74B'', asc ''#FF9F0A'', asc ''#5E5CE6'', asc ''#64D2FF'']"

text \<open>One endpoint of the signature: \<^verbatim>\<open>first?.[0].toFixed(3)\<close> and
  \<^verbatim>\<open>first?.[1].toFixed(3)\<close> joined by a comma; on an empty geometry both optional
  chains give \<^verbatim>\<open>undefined\<close>.\<close>

definition sigPoint :: "(real \<times> real) option \<Rightarrow> jsstring" where
  "sigPoint p = (case p of
       None \<Rightarrow> asc ''undefined,undefined''
     | Some c \<Rightarrow> toFixed3 (fst c) @ asc '','' @ toFixed3 (snd c))"

definition firstCoord :: "(real \<times> real) list \<Rightarrow> (real \<times> real) option" where
  "firstCoord cs = (case cs of [] \<Rightarrow> None | c # _ \<Rightarrow> Some c)"

definition lastCoord :: "(real \<times> real) list \<Rightarrow> (real \<times> real) option" where
  "lastCoord cs = (if cs = [] then None else Some (cs ! (length cs - 1)))"

definition sigForRoute :: "OSRMRoute \<Rightarrow> jsstring" where
  "sigForRoute r =
     showInt (mathRound (distance r)) @ asc ''|'' @
     showInt (mathRound (duration r)) @ asc ''|'' @
     sigPoint (firstCoord (geometry r)) @ asc ''|'' @
     sigPoint (lastCoord (geometry r)) @ asc ''|'' @
     showNat (length (geometry r))"

section \<open>The literals of the source\<close>

text \<open>The Cyrillic string literals, as UTF-16 code units. In source order of first use:
  the fallback street name; the texts of \<^verbatim>\<open>buildInstruction\<close> (arrival, departure, turn,
  go straight, lane change, fork, roundabout, end of road); the status texts; the
  messages of the three errors thrown on a Stage-1 status, the fallback for an error
  without a message, the no-route message of \<^verbatim>\<open>fetchRoutes\<close> and its fallback; the
  alert texts; the texts of the summary bridge; the word of the second index pattern.\<close>

definition noStreetName :: jsstring where
  "noStreetName = [0x411, 0x435, 0x437, 0x20, 0x43D, 0x430, 0x437, 0x432, 0x430, 0x43D, 0x438, 0x44F]"

definition txtArrive :: jsstring where
  "txtArrive = [0x41F, 0x440, 0x438, 0x431, 0x44B, 0x442, 0x438, 0x435]"

definition txtDepart :: jsstring where
  "txtDepart = [0x41D, 0x430, 0x447, 0x430, 0x43B, 0x43E, 0x20, 0x434, 0x432, 0x438, 0x436, 0x435,
     0x43D, 0x438, 0x44F]"

definition txtTurn :: jsstring where
  "txtTurn = [0x41F, 0x43E, 0x432, 0x43E, 0x440, 0x43E, 0x442]"

definition txtContinue :: jsstring where
  "txtContinue = [0x414, 0x432, 0x438, 0x433, 0x430, 0x439, 0x442, 0x435, 0x441, 0x44C, 0x20, 0x43F,
     0x440, 0x44F, 0x43C, 0x43E]"

definition txtMerge :: jsstring where
  "txtMerge = [0x41F, 0x435, 0x440, 0x435, 0x441, 0x442, 0x440, 0x43E, 0x435, 0x43D, 0x438, 0x435]"

definition txtFork :: jsstring where
  "txtFork = [0x420, 0x430, 0x437, 0x432, 0x438, 0x43B, 0x43A, 0x430]"

definition txtRoundabout :: jsstring where
  "txtRoundabout = [0x41A, 0x43E, 0x43B, 0x44C, 0x446, 0x435, 0x432, 0x43E, 0x435, 0x20, 0x434, 0x432,
     0x438, 0x436, 0x435, 0x43D, 0x438, 0x435]"

definition txtEndOfRoad :: jsstring where
  "txtEndOfRoad = [0x41A, 0x43E, 0x43D, 0x435, 0x446, 0x20, 0x434, 0x43E, 0x440, 0x43E, 0x433, 0x438]"

definition statusAskAlternatives :: jsstring where
  "statusAskAlternatives = [0x417, 0x430, 0x43F, 0x440, 0x430, 0x448, 0x438, 0x432, 0x430, 0x435,
     0x43C, 0x20, 0x430, 0x43B, 0x44C, 0x442, 0x435, 0x440, 0x43D, 0x430, 0x442, 0x438, 0x432, 0x44B,
     0x2026]"

definition statusBuilding :: jsstring where
  "statusBuilding = [0x421, 0x442, 0x440, 0x43E, 0x438, 0x43C, 0x20, 0x434, 0x43E, 0x20, 0x35, 0x20,
     0x432, 0x430, 0x440, 0x438, 0x430, 0x43D, 0x442, 0x43E, 0x432, 0x2026]"

definition statusDonePrefix :: jsstring where
  "statusDonePrefix = [0x413, 0x43E, 0x442, 0x43E, 0x432, 0x43E, 0x3A, 0x20, 0x43C, 0x430, 0x440,
     0x448, 0x440, 0x443, 0x442, 0x43E, 0x432, 0x20]"

definition statusError :: jsstring where
  "statusError = [0x41E, 0x448, 0x438, 0x431, 0x43A, 0x430]"

definition statusSelectedPrefix :: jsstring where
  "statusSelectedPrefix = [0x412, 0x44B, 0x431, 0x440, 0x430, 0x43D, 0x20, 0x43C, 0x430, 0x440,
     0x448, 0x440, 0x443, 0x442, 0x20, 0x23]"

definition statusReady :: jsstring where
  "statusReady = [0x413, 0x43E, 0x442, 0x43E, 0x432, 0x20, 0x43A, 0x20, 0x43F, 0x43E, 0x441, 0x442,
     0x440, 0x43E, 0x435, 0x43D, 0x438, 0x44E]"

definition msgOverloaded429 :: jsstring where
  "msgOverloaded429 = [0x414, 0x435, 0x43C, 0x43E, 0x2D, 0x441, 0x435, 0x440, 0x432, 0x435, 0x440,
     0x20, 0x43F, 0x435, 0x440, 0x435, 0x433, 0x440, 0x443, 0x436, 0x435, 0x43D, 0x20, 0x28, 0x34,
     0x32, 0x39, 0x29, 0x2E, 0x20, 0x41F, 0x43E, 0x432, 0x442, 0x43E, 0x440, 0x438, 0x442, 0x435,
     0x20, 0x43F, 0x43E, 0x437, 0x436, 0x435, 0x2E]"

definition msgBadRequest400 :: jsstring where
  "msgBadRequest400 = [0x41D, 0x435, 0x432, 0x435, 0x440, 0x43D, 0x44B, 0x439, 0x20, 0x437, 0x430,
     0x43F, 0x440, 0x43E, 0x441, 0x20, 0x28, 0x34, 0x30, 0x30, 0x29, 0x2E, 0x20, 0x41F, 0x43E, 0x441,
     0x442, 0x430, 0x432, 0x44C, 0x442, 0x435, 0x20, 0x442, 0x43E, 0x447, 0x43A, 0x438, 0x20, 0x431,
     0x43B, 0x438, 0x436, 0x435, 0x20, 0x43A, 0x20, 0x434, 0x43E, 0x440, 0x43E, 0x433, 0x435, 0x2E]"

definition msgServerRepliedPrefix :: jsstring where
  "msgServerRepliedPrefix = [0x421, 0x435, 0x440, 0x432, 0x435, 0x440, 0x20, 0x43E, 0x442, 0x432,
     0x435, 0x442, 0x438, 0x43B, 0x20]"

definition msgOsrmError :: jsstring where
  "msgOsrmError = [0x41E, 0x448, 0x438, 0x431, 0x43A, 0x430, 0x20, 0x4F, 0x53, 0x52, 0x4D]"

definition msgNoRoute :: jsstring where
  "msgNoRoute = [0x4F, 0x53, 0x52, 0x4D, 0x20, 0x43D, 0x435, 0x20, 0x441, 0x43C, 0x43E, 0x433, 0x20,
     0x43F, 0x43E, 0x441, 0x442, 0x440, 0x43E, 0x438, 0x442, 0x44C, 0x20, 0x43C, 0x430, 0x440, 0x448,
     0x440, 0x443, 0x442, 0x2E, 0x20, 0x41F, 0x43E, 0x43F, 0x440, 0x43E, 0x431, 0x443, 0x439, 0x442,
     0x435, 0x20, 0x431, 0x43B, 0x438, 0x436, 0x435, 0x20, 0x43A, 0x20, 0x434, 0x43E, 0x440, 0x43E,
     0x433, 0x435, 0x2E]"

definition alertRouteTitle :: jsstring where
  "alertRouteTitle = [0x41C, 0x430, 0x440, 0x448, 0x440, 0x443, 0x442]"

definition alertPickPoints :: jsstring where
  "alertPickPoints = [0x421, 0x43D, 0x430, 0x447, 0x430, 0x43B, 0x430, 0x20, 0x432, 0x44B, 0x431,
     0x435, 0x440, 0x438, 0x442, 0x435, 0x20, 0x442, 0x43E, 0x447, 0x43A, 0x438, 0x20, 0x41, 0x20,
     0x438, 0x20, 0x42, 0x2E]"




definition wordMarshrut :: jsstring where
  "wordMarshrut = [0x43C, 0x430, 0x440, 0x448, 0x440, 0x443, 0x442]"

section \<open>The screen's state and its environment\<close>

text \<open>
  The React state of \<^verbatim>\<open>App\<close> that the route logic reads and writes, as one record that
  every handler takes and returns; setters applied in sequence are record updates in
  the same order. \<open>pointA\<close> and \<open>pointB\<close> are the state variables \<^verbatim>\<open>A\<close> and \<^verbatim>\<open>B\<close>.
  Three fields record effects that leave the component: \<open>alerts\<close> lists the calls of
  \<^verbatim>\<open>Alert.alert\<close> (title and message), \<open>aiTimers\<close> the pending \<^verbatim>\<open>setTimeout\<close>
  callbacks of the summary effect, each with the routes and the selection its closure
  captured, and \<open>aiRequests\<close> counts the POST requests sent to the summarization
  service.
\<close>

record AppState =
  pointA :: "Coord option"
  pointB :: "Coord option"
  routes :: "RouteView list"
  selectedRoute :: nat
  showAllRoutes :: bool
  loading :: bool
  statusKey :: StatusKey
  statusText :: jsstring
  errorText :: "jsstring option"
  alerts :: "(jsstring \<times> jsstring) list"
  autoAiEnabled :: bool
  aiLoading :: bool
  aiText :: jsstring
  aiSuggestedIndex :: "int option"
  lastAiSignatureRef :: jsstring
  aiTimers :: "(RouteView list \<times> nat) list"
  aiRequests :: nat

text \<open>The state of the first render: the initial values of the \<^verbatim>\<open>useState\<close> and
  \<^verbatim>\<open>useRef\<close> calls.\<close>

definition initialState :: AppState where
  "initialState =
     \<lparr>pointA = None, pointB = None, routes = [], selectedRoute = 0, showAllRoutes = True,
      loading = False, statusKey = StatusIdle, statusText = statusReady, errorText = None,
      alerts = [], autoAiEnabled = True, aiLoading = False, aiText = [],
      aiSuggestedIndex = None, lastAiSignatureRef = [], aiTimers = [], aiRequests = 0\<rparr>"

text \<open>
  What the routing service answers during one \<^verbatim>\<open>fetchFiveRoutes\<close>: to the two
  nearest-point lookups, to the Stage-1 request, and to the request for the via point
  at each position of the Stage-2 and of the Stage-3 list (the answer that request
  gets if it is sent). The answers are arbitrary: no dependence on the request is
  assumed.
\<close>

record World =
  nearestA :: "NearestResp http"
  nearestB :: "NearestResp http"
  stage1 :: "OSRMResponse http"
  stage2 :: "nat \<Rightarrow> OSRMResponse http"
  stage3 :: "nat \<Rightarrow> OSRMResponse http"

section \<open>Route acquisition\<close>

definition nearestHint :: "NearestResp http \<Rightarrow> Coord \<Rightarrow> Coord \<times> jsstring option" where
  "nearestHint reply c =
     (case reply of
        HttpThrew _ \<Rightarrow> (c, None)
      | HttpResp st body \<Rightarrow>
          if \<not> res_ok st then (c, None)
          else (case body of
                  Threw _ \<Rightarrow> (c, None)
                | Returned d \<Rightarrow>
                    (case n_waypoints d of
                       Some (wp # _) \<Rightarrow>
                         (case wp_location wp of
                            Some l \<Rightarrow> (\<lparr>lat = snd l, lon = fst l\<rparr>, wp_hint wp)
                          | None \<Rightarrow> (c, None))
                     | _ \<Rightarrow> (c, None))))"

definition buildInstruction :: "OSRMStep \<Rightarrow> jsstring" where
  "buildInstruction s =
     (let t = mtype (maneuver s);
          m = (case modifier (maneuver s) of
                 None \<Rightarrow> []
               | Some md \<Rightarrow> if md = [] then [] else asc '', '' @ md)
      in if t = asc ''arrive'' then txtArrive
         else if t = asc ''depart'' then txtDepart
         else if t = asc ''turn'' then txtTurn @ m
         else if t = asc ''continue'' then txtContinue @ m
         else if t = asc ''merge'' then txtMerge @ m
         else if t = asc ''fork'' then txtFork @ m
         else if t = asc ''roundabout'' \<or> t = asc ''rotary'' then txtRoundabout
         else if t = asc ''end of road'' then txtEndOfRoad @ m
         else t @ m)"

text \<open>
  \<^verbatim>\<open>list.map((r, i) => ({ i, d: r.duration })).sort((a, b) => a.d - b.d)[0]?.i ?? 0\<close>.
  \<^verbatim>\<open>Array.prototype.sort\<close> is a stable sort (ECMAScript 2019), and the comparator orders
  by duration: \<open>sort_key\<close>, the stable insertion sort of the list library.
\<close>

definition bestIdxOf :: "OSRMRoute list \<Rightarrow> nat" where
  "bestIdxOf list =
     (case sort_key snd (map (\<lambda>(i, r). (i, duration r)) (enumerate 0 list)) of
        [] \<Rightarrow> 0
      | p # _ \<Rightarrow> fst p)"

definition turnNodesOf :: "nat \<Rightarrow> OSRMRoute \<Rightarrow> TurnNode list" where
  "turnNodesOf idx r =
     concat (map (\<lambda>(legIndex, leg).
       map (\<lambda>(stepIndex, s).
         \<lparr>node_id = asc ''r'' @ showNat idx @ asc ''-l'' @ showNat legIndex @ asc ''-s'' @ showNat stepIndex,
          coordinate = toXY (location (maneuver s)),
          street = (if name s = [] then noStreetName else name s),
          maneuverType = buildInstruction s,
          node_modifier = modifier (maneuver s),
          stepDistance = step_distance s,
          stepDuration = step_duration s,
          routeIndex = idx\<rparr>) (enumerate 0 (steps leg))) (enumerate 0 (legs r)))"

definition mapToViews :: "OSRMRoute list \<Rightarrow> RouteView list \<times> nat" where
  "mapToViews list =
     (let bestIdx = bestIdxOf list;
          mapped = map (\<lambda>(idx, r).
            \<lparr>view_id = asc ''route-'' @ showNat idx,
             index = idx,
             coords = map toXY (geometry r),
             view_distance = distance r,
             view_duration = duration r,
             color = COLORS ! (idx mod length COLORS),
             isPrimary = (idx = bestIdx),
             turnNodes = turnNodesOf idx r\<rparr>) (enumerate 0 (take 5 list))
      in (mapped, bestIdx))"

definition makeViaCandidates :: "Coord \<Rightarrow> Coord \<Rightarrow> Coord list" where
  "makeViaCandidates a b =
     (let midLat = (lat a + lat b) / 2;
          midLon = (lon a + lon b) / 2;
          latSpan = max 0.005 \<bar>lat a - lat b\<bar>;
          lonSpan = max 0.005 \<bar>lon a - lon b\<bar>;
          dLat = min 0.03 (latSpan * 0.6);
          dLon = min 0.03 (lonSpan * 0.6)
      in [\<lparr>lat = midLat + dLat, lon = midLon\<rparr>,
          \<lparr>lat = midLat - dLat, lon = midLon\<rparr>,
          \<lparr>lat = midLat, lon = midLon + dLon\<rparr>,
          \<lparr>lat = midLat, lon = midLon - dLon\<rparr>,
          \<lparr>lat = midLat + dLat, lon = midLon + dLon\<rparr>,
          \<lparr>lat = midLat - dLat, lon = midLon + dLon\<rparr>,
          \<lparr>lat = midLat + dLat, lon = midLon - dLon\<rparr>,
          \<lparr>lat = midLat - dLat, lon = midLon - dLon\<rparr>,
          \<lparr>lat = midLat + dLat * 1.5, lon = midLon\<rparr>,
          \<lparr>lat = midLat, lon = midLon + dLon * 1.5\<rparr>,
          \<lparr>lat = midLat - dLat * 1.5, lon = midLon\<rparr>,
          \<lparr>lat = midLat, lon = midLon - dLon * 1.5\<rparr>])"

text \<open>The accumulator of \<^verbatim>\<open>fetchFiveRoutes\<close>: the array \<^verbatim>\<open>out\<close> and the set \<^verbatim>\<open>seen\<close>.\<close>

type_synonym acc = "OSRMRoute list \<times> jsstring set"

text \<open>The Stage-1 loop over \<^verbatim>\<open>data.routes\<close>, which leaves at five accepted routes.\<close>

fun addAlternatives :: "OSRMRoute list \<Rightarrow> acc \<Rightarrow> acc" where
  "addAlternatives [] a = a"
| "addAlternatives (r # rs) (out, seen) =
     (let k = sigForRoute r in
      if k \<notin> seen then
        (if length (out @ [r]) \<ge> 5 then (out @ [r], insert k seen)
         else addAlternatives rs (out @ [r], insert k seen))
      else addAlternatives rs (out, seen))"

text \<open>The error message the Stage-1 \<^verbatim>\<open>try\<close> block ends with, if it throws:
  \<^verbatim>\<open>(e as Error)?.message ?? ...\<close>.\<close>

definition caughtMessage :: "jsstring option \<Rightarrow> jsstring" where
  "caughtMessage m = (case m of Some t \<Rightarrow> t | None \<Rightarrow> msgOsrmError)"

text \<open>The Stage-1 \<^verbatim>\<open>try\<close> block: \<open>Inl\<close> the message handed to \<^verbatim>\<open>setErrorText\<close> in its
  \<^verbatim>\<open>catch\<close>, \<open>Inr\<close> the accumulator after the block.\<close>

definition stage1Block :: "OSRMResponse http \<Rightarrow> jsstring + acc" where
  "stage1Block reply =
     (case reply of
        HttpThrew m \<Rightarrow> Inl (caughtMessage m)
      | HttpResp st body \<Rightarrow>
          if st = 429 then Inl msgOverloaded429
          else if st = 400 then Inl msgBadRequest400
          else if \<not> res_ok st then Inl (msgServerRepliedPrefix @ showNat st)
          else (case body of
                  Threw m \<Rightarrow> Inl (caughtMessage m)
                | Returned d \<Rightarrow>
                    (case resp_routes d of
                       Some (r # rs) \<Rightarrow>
                         if code d = asc ''Ok'' then Inr (addAlternatives (r # rs) ([], {}))
                         else Inr ([], {})
                     | _ \<Rightarrow> Inr ([], {}))))"

text \<open>The body of one pass of a via loop, after its \<^verbatim>\<open>break\<close> test: a reply that is not
  usable, or that throws, leaves the accumulator as it is.\<close>

definition viaStep :: "OSRMResponse http \<Rightarrow> acc \<Rightarrow> acc" where
  "viaStep reply a =
     (case reply of
        HttpThrew _ \<Rightarrow> a
      | HttpResp st body \<Rightarrow>
          if \<not> res_ok st then a
          else (case body of
                  Threw _ \<Rightarrow> a
                | Returned d \<Rightarrow>
                    (case resp_routes d of
                       Some (r # _) \<Rightarrow>
                         if code d \<noteq> asc ''Ok'' then a
                         else (let k = sigForRoute r in
                               if k \<notin> snd a then (fst a @ [r], insert k (snd a)) else a)
                     | _ \<Rightarrow> a)))"

text \<open>A via loop over the numbered via points.\<close>

fun viaLoop :: "(nat \<Rightarrow> OSRMResponse http) \<Rightarrow> (nat \<times> Coord) list \<Rightarrow> acc \<Rightarrow> acc" where
  "viaLoop reply [] a = a"
| "viaLoop reply (v # vs) a =
     (if length (fst a) \<ge> 5 then a else viaLoop reply vs (viaStep (reply (fst v)) a))"

definition fetchFiveRoutes :: "World \<Rightarrow> Coord \<Rightarrow> Coord \<Rightarrow> AppState \<Rightarrow> OSRMRoute list \<times> AppState" where
  "fetchFiveRoutes w A0 B0 s =
     (let s1 = s\<lparr>statusText := statusAskAlternatives, statusKey := StatusLoading\<rparr>;
          aH = nearestHint (nearestA w) A0;
          bH = nearestHint (nearestB w) B0;
          (a1, s2) = (case stage1Block (stage1 w) of
                        Inl msg \<Rightarrow> (([], {}), s1\<lparr>errorText := Some msg\<rparr>)
                      | Inr a \<Rightarrow> (a, s1))
      in if length (fst a1) \<ge> 5 then (take 5 (fst a1), s2)
         else
           (let vias = makeViaCandidates (fst aH) (fst bH);
                a2 = viaLoop (stage2 w) (enumerate 0 vias) a1;
                a3 = (if length (fst a2) < 5 then
                        (let farVias = makeViaCandidates
                               \<lparr>lat = lat (fst aH) + 0.01, lon = lon (fst aH) + 0.01\<rparr>
                               \<lparr>lat = lat (fst bH) - 0.01, lon = lon (fst bH) - 0.01\<rparr>
                         in viaLoop (stage3 w) (enumerate 0 farVias) a2)
                      else a2)
            in (take 5 (fst a3), s2)))"

definition fetchRoutes :: "World \<Rightarrow> AppState \<Rightarrow> AppState" where
  "fetchRoutes w s =
     (case (pointA s, pointB s) of
        (Some A0, Some B0) \<Rightarrow>
          (let s1 = s\<lparr>loading := True, errorText := None, statusText := statusBuilding,
                      statusKey := StatusLoading, routes := []\<rparr>;
               (got, s2) = fetchFiveRoutes w A0 B0 s1
           in if got = [] then
                s2\<lparr>errorText := Some msgNoRoute, statusText := statusError, statusKey := StatusError,
                   alerts := alerts s2 @ [(asc ''OSRM'', msgNoRoute)], loading := False\<rparr>
              else
                (let (mapped, bestIdx) = mapToViews got
                 in s2\<lparr>routes := mapped, selectedRoute := bestIdx, showAllRoutes := True,
                       statusText := statusDonePrefix @ showNat (length mapped),
                       statusKey := StatusOk, loading := False\<rparr>))
      | _ \<Rightarrow> s\<lparr>alerts := alerts s @ [(alertRouteTitle, alertPickPoints)]\<rparr>)"

section \<open>Appearance and layers of the routes\<close>

record RouteAppearance =
  mainColor :: jsstring
  mainWidth :: nat
  outlineColor :: jsstring
  outlineWidth :: nat
  shouldShow :: bool
  z :: nat

definition getRouteAppearance :: "AppState \<Rightarrow> RouteView \<Rightarrow> RouteAppearance" where
  "getRouteAppearance s r =
     (let isOpt = isPrimary r;
          isSel = (index r = selectedRoute s);
          mainWidth' = (if isSel then 12 else if isOpt then 10 else 6)
      in \<lparr>mainColor = (if isSel then color r else if isOpt then color r
                        else asc ''rgba(255,255,255,0.45)''),
          mainWidth = mainWidth',
          outlineColor = (if isSel then asc ''rgba(255,255,255,0.98)''
                          else if isOpt then asc ''rgba(255,255,255,0.9)''
                          else asc ''rgba(255,255,255,0.35)''),
          outlineWidth = mainWidth' + 4,
          shouldShow = (if showAllRoutes s then True else isSel),
          z = (if showAllRoutes s then
                 (let z1 = (if isSel \<and> \<not> isOpt then 1 else 0) in if isOpt then 2 else z1)
               else 2)\<rparr>)"

text \<open>The key \<^verbatim>\<open>za\<close> (and \<^verbatim>\<open>zb\<close>) that the comparator of \<^verbatim>\<open>routesSorted\<close> computes.\<close>

definition drawKey :: "AppState \<Rightarrow> RouteView \<Rightarrow> nat" where
  "drawKey s a =
     (if showAllRoutes s then (if isPrimary a then 2 else (if index a = selectedRoute s then 1 else 0))
      else (if index a = selectedRoute s then 2 else 0))"

text \<open>\<^verbatim>\<open>routes.slice().sort((a, b) => za - zb)\<close>: a stable sort by that key.\<close>

definition routesSorted :: "AppState \<Rightarrow> RouteView list" where
  "routesSorted s = sort_key (drawKey s) (routes s)"

definition visibleRoutes :: "AppState \<Rightarrow> RouteView list" where
  "visibleRoutes s =
     (if showAllRoutes s then routesSorted s
      else filter (\<lambda>r. index r = selectedRoute s) (routesSorted s))"

definition selectRouteOnly :: "nat \<Rightarrow> AppState \<Rightarrow> AppState" where
  "selectRouteOnly idx s =
     s\<lparr>selectedRoute := idx, showAllRoutes := False,
       statusText := statusSelectedPrefix @ showNat (idx + 1)\<rparr>"

text \<open>The handler of the show-all button: \<^verbatim>\<open>() => setShowAllRoutes((v) => !v)\<close>.\<close>

definition toggleShowAll :: "AppState \<Rightarrow> AppState" where
  "toggleShowAll s = s\<lparr>showAllRoutes := \<not> showAllRoutes s\<rparr>"

section \<open>The summary bridge\<close>

subsection \<open>The two regular expressions\<close>

text \<open>
  The white space class \<^verbatim>\<open>\s\<close> (also what \<^verbatim>\<open>trim\<close> strips) and the digit class
  \<^verbatim>\<open>\d\<close>. Under the flag \<^verbatim>\<open>i\<close> (without \<^verbatim>\<open>u\<close>) two code units match when their
  canonical forms are equal: the upper-case form, unless that is longer than one code
  unit or turns a code unit from 128 on into one below 128. \<open>canonicalize\<close> is this
  mapping on the Basic Latin letters and on the Cyrillic letters, with the variant
  letter forms \<open>U+1C80\<close> to \<open>U+1C88\<close> (two of which fold to the capital of the last letter
  of the word of the second pattern); these are all code units whose canonical form is
  that of a letter of the two patterns. Every other code unit is left as it is, which
  changes no comparison with a letter of the patterns.
\<close>

definition isSpaceJs :: "nat \<Rightarrow> bool" where
  "isSpaceJs c =
     (c \<in> set [0x9, 0xA, 0xB, 0xC, 0xD, 0x20, 0xA0, 0x1680, 0x2028, 0x2029, 0x202F, 0x205F,
               0x3000, 0xFEFF]
      \<or> (0x2000 \<le> c \<and> c \<le> 0x200A))"

definition isDigitJs :: "nat \<Rightarrow> bool" where
  "isDigitJs c = (48 \<le> c \<and> c \<le> 57)"

definition canonicalize :: "nat \<Rightarrow> nat" where
  "canonicalize c =
     (if 0x61 \<le> c \<and> c \<le> 0x7A then c - 0x20
      else if 0x430 \<le> c \<and> c \<le> 0x44F then c - 0x20
      else if 0x450 \<le> c \<and> c \<le> 0x45F then c - 0x50
      else if c = 0x1C80 then 0x412
      else if c = 0x1C81 then 0x414
      else if c = 0x1C82 then 0x41E
      else if c = 0x1C83 then 0x421
      else if c = 0x1C84 \<or> c = 0x1C85 then 0x422
      else if c = 0x1C86 then 0x42A
      else if c = 0x1C87 then 0x462
      else if c = 0x1C88 then 0xA64A
      else c)"









subsection \<open>The two patterns in words\<close>

text \<open>
  What the two patterns stand for, said without a matching engine, to compare
  \<^verbatim>\<open>parseSuggestedIndex\<close> with. Two texts are equal up to case when their code units have
  the same canonical forms. A text starts with a \<^verbatim>\<open>route_index = N\<close> token with the digits
  \<open>d\<close> when it is: the word \<^verbatim>\<open>route\<close> up to case; nothing, or one of an underscore, a white
  space and a hyphen; the word \<^verbatim>\<open>index\<close> up to case; any white space; the sign \<^verbatim>\<open>=\<close>;
  any white space; the digits \<open>d\<close>, at least one, up to the first code unit that is not
  a digit; and the rest of the text. It starts with a route phrase with the digits \<open>d\<close>
  when it is: the word \<open>wordMarshrut\<close> up to case; any white space; the sign \<^verbatim>\<open>#\<close>; any
  white space; the digits \<open>d\<close> as before; and the rest.
\<close>

definition ciEq :: "jsstring \<Rightarrow> jsstring \<Rightarrow> bool" where
  "ciEq u w = (map canonicalize u = map canonicalize w)"

definition routeIndexToken :: "jsstring \<Rightarrow> jsstring \<Rightarrow> bool" where
  "routeIndexToken s d =
     (\<exists>w1 sep w2 ws1 ws2 rest.
        s = w1 @ sep @ w2 @ ws1 @ asc ''='' @ ws2 @ d @ rest
        \<and> ciEq w1 (asc ''route'')
        \<and> (sep = [] \<or> (\<exists>c. sep = [c] \<and> (c = 0x5F \<or> isSpaceJs c \<or> c = 0x2D)))
        \<and> ciEq w2 (asc ''index'')
        \<and> list_all isSpaceJs ws1 \<and> list_all isSpaceJs ws2
        \<and> d \<noteq> [] \<and> list_all isDigitJs d
        \<and> (rest = [] \<or> \<not> isDigitJs (hd rest)))"

definition routePhrase :: "jsstring \<Rightarrow> jsstring \<Rightarrow> bool" where
  "routePhrase s d =
     (\<exists>w ws1 ws2 rest.
        s = w @ ws1 @ asc ''#'' @ ws2 @ d @ rest
        \<and> ciEq w wordMarshrut
        \<and> list_all isSpaceJs ws1 \<and> list_all isSpaceJs ws2
        \<and> d \<noteq> [] \<and> list_all isDigitJs d
        \<and> (rest = [] \<or> \<not> isDigitJs (hd rest)))"

text \<open>The leftmost place of a text at which a token of the kind \<open>P\<close> starts carries the
  digits \<open>d\<close>; and: no token of the kind \<open>P\<close> starts anywhere in the text.\<close>

definition leftmostToken :: "(jsstring \<Rightarrow> jsstring \<Rightarrow> bool) \<Rightarrow> jsstring \<Rightarrow> jsstring \<Rightarrow> bool" where
  "leftmostToken P txt d =
     (\<exists>i\<le>length txt. P (drop i txt) d \<and> (\<forall>j<i. \<forall>e. \<not> P (drop j txt) e))"

definition noToken :: "(jsstring \<Rightarrow> jsstring \<Rightarrow> bool) \<Rightarrow> jsstring \<Rightarrow> bool" where
  "noToken P txt = (\<forall>i\<le>length txt. \<forall>e. \<not> P (drop i txt) e)"

subsection \<open>Signature, request and answer\<close>

definition routesSignature :: "RouteView list \<Rightarrow> jsstring" where
  "routesSignature rs =
     joinWith (asc ''|'')
       (map (\<lambda>r. showNat (index r) @ asc '':'' @ showInt (mathRound (view_distance r)) @ asc '':'' @
                  showInt (mathRound (view_duration r)) @ asc '':'' @ showNat (length (turnNodes r))) rs)"




text \<open>
  \<^verbatim>\<open>callGeminiAuto\<close> up to its \<^verbatim>\<open>await fetch\<close>, for a closure that captured the routes
  \<open>rs\<close>: with no routes it returns at once; otherwise it resets the answer and sends
  one request (the payload, \<^verbatim>\<open>serializeForAutoAI\<close>, is not modelled).
\<close>

definition callGeminiAutoStart :: "RouteView list \<Rightarrow> AppState \<Rightarrow> AppState" where
  "callGeminiAutoStart rs s =
     (if rs = [] then s
      else s\<lparr>aiLoading := True, aiText := [], aiSuggestedIndex := None,
             aiRequests := aiRequests s + 1\<rparr>)"



text \<open>
  The effect that starts the summary on its own. It runs after a render in which
  \<^verbatim>\<open>autoAiEnabled\<close>, \<^verbatim>\<open>routes\<close> or \<^verbatim>\<open>selectedRoute\<close> changed; when it does not return
  early it records the signature and sets a timer for \<^verbatim>\<open>callGeminiAuto\<close>.
\<close>

definition autoAiEffect :: "AppState \<Rightarrow> AppState" where
  "autoAiEffect s =
     (if \<not> autoAiEnabled s \<or> routes s = [] then s
      else
        (let sig = routesSignature (routes s) in
         if sig = lastAiSignatureRef s then s
         else s\<lparr>lastAiSignatureRef := sig,
                aiTimers := aiTimers s @ [(routes s, selectedRoute s)]\<rparr>))"

text \<open>The pending timers fire, each calling \<^verbatim>\<open>callGeminiAuto\<close> of its closure.\<close>

fun fireTimers :: "(RouteView list \<times> nat) list \<Rightarrow> AppState \<Rightarrow> AppState" where
  "fireTimers [] s = s"
| "fireTimers (t # ts) s = fireTimers ts (callGeminiAutoStart (fst t) s)"

definition runAiTimers :: "AppState \<Rightarrow> AppState" where
  "runAiTimers s = fireTimers (aiTimers s) (s\<lparr>aiTimers := []\<rparr>)"

section \<open>Comparing route sets, and example data\<close>

text \<open>What the suppression signature reads of a route: its index, its rounded distance,
  its rounded duration and its number of turn nodes.\<close>

definition routeKey :: "RouteView \<Rightarrow> nat \<times> int \<times> int \<times> nat" where
  "routeKey r = (index r, mathRound (view_distance r), mathRound (view_duration r), length (turnNodes r))"

text \<open>A candidate route with the given distance and duration, and the state of a screen
  that shows two such routes.\<close>

definition exRoute :: "real \<Rightarrow> real \<Rightarrow> OSRMRoute" where
  "exRoute d t = \<lparr>geometry = [(76.9, 43.2), (77, 43.3)], distance = d, duration = t, weight = t,
     weight_name = asc ''routability'', legs = []\<rparr>"

definition exViews :: "RouteView list" where
  "exViews = fst (mapToViews [exRoute 5200.4 600, exRoute 5950 650])"

definition exState :: AppState where
  "exState = initialState\<lparr>routes := exViews\<rparr>"

text \<open>The screen of \<open>exState\<close> after the second route was selected with all routes
  still shown, and the endpoints of the worked example of the via points.\<close>

definition exSelected :: AppState where
  "exSelected = exState\<lparr>selectedRoute := 1\<rparr>"

definition exA :: Coord where
  "exA = \<lparr>lat = 0, lon = 0\<rparr>"

definition exB :: Coord where
  "exB = \<lparr>lat = 0, lon = 1\<rparr>"

text \<open>The offsets of a list of via points from the midpoint of \<open>a\<close> and \<open>b\<close>, as pairs
  of latitude and longitude differences.\<close>

definition offsets :: "Coord \<Rightarrow> Coord \<Rightarrow> Coord list \<Rightarrow> (real \<times> real) list" where
  "offsets a b vs = map (\<lambda>v. (lat v - (lat a + lat b) / 2, lon v - (lon a + lon b) / 2)) vs"

section \<open>Arrival order\<close>

text \<open>
  The reference that the accumulated route list is compared with. \<open>firstSeen f seen xs\<close>
  keeps, in order, every element of \<open>xs\<close> whose key \<open>f\<close> is neither in \<open>seen\<close> nor the
  key of an earlier element. \<open>arrivals w\<close> are the candidates in the order in which the
  routing service delivers them: the routes of a usable Stage-1 answer, then the first
  route of each usable answer to the twelve via requests of Stage 2, then the same
  for Stage 3.
\<close>

fun firstSeen :: "('a \<Rightarrow> 'k) \<Rightarrow> 'k set \<Rightarrow> 'a list \<Rightarrow> 'a list" where
  "firstSeen f seen [] = []"
| "firstSeen f seen (x # xs) =
     (if f x \<in> seen then firstSeen f seen xs else x # firstSeen f (insert (f x) seen) xs)"

definition usableRoutes :: "OSRMResponse http \<Rightarrow> OSRMRoute list" where
  "usableRoutes reply =
     (case reply of
        HttpResp st (Returned d) \<Rightarrow>
          if res_ok st \<and> code d = asc ''Ok'' then (case resp_routes d of Some rs \<Rightarrow> rs | None \<Rightarrow> [])
          else []
      | _ \<Rightarrow> [])"

definition arrivals :: "World \<Rightarrow> OSRMRoute list" where
  "arrivals w =
     usableRoutes (stage1 w)
     @ concat (map (\<lambda>i. take 1 (usableRoutes (stage2 w i))) [0..<12])
     @ concat (map (\<lambda>i. take 1 (usableRoutes (stage3 w i))) [0..<12])"

text \<open>
  Two environments. In \<open>exWorld\<close> Stage 1 delivers three routes, the second with the
  signature of the first, the first via request of Stage 2 delivers one more route,
  and every other request fails. In \<open>exFailWorld\<close> Stage 1 is answered with status 429
  and every via request times out. \<open>exReady\<close> is the initial screen with both endpoints
  set.
\<close>

definition exWorld :: World where
  "exWorld =
     \<lparr>nearestA = HttpThrew None,
      nearestB = HttpResp 200 (Returned \<lparr>n_code = asc ''Ok'', n_waypoints = Some []\<rparr>),
      stage1 = HttpResp 200 (Returned \<lparr>code = asc ''Ok'',
                 resp_routes = Some [exRoute 5000 600, exRoute 5000.2 600.1, exRoute 5100 650],
                 message = None\<rparr>),
      stage2 = (\<lambda>i. if i = 0
                 then HttpResp 200 (Returned \<lparr>code = asc ''Ok'', resp_routes = Some [exRoute 5200 700],
                                              message = None\<rparr>)
                 else HttpThrew None),
      stage3 = (\<lambda>i. HttpResp 500 (Threw None))\<rparr>"

definition exFailWorld :: World where
  "exFailWorld =
     \<lparr>nearestA = HttpThrew None, nearestB = HttpThrew None,
      stage1 = HttpResp 429 (Threw None),
      stage2 = (\<lambda>i. HttpThrew None),
      stage3 = (\<lambda>i. HttpThrew None)\<rparr>"

definition exReady :: AppState where
  "exReady = initialState\<lparr>pointA := Some exA, pointB := Some exB\<rparr>"

text \<open>An environment in which Stage 1 delivers three routes, the second and the third
  with the same, lowest duration, and every via request fails.\<close>

definition exTieWorld :: World where
  "exTieWorld =
     \<lparr>nearestA = HttpThrew None, nearestB = HttpThrew None,
      stage1 = HttpResp 200 (Returned \<lparr>code = asc ''Ok'',
                 resp_routes = Some [exRoute 5000 650, exRoute 5100 600, exRoute 5200 600],
                 message = None\<rparr>),
      stage2 = (\<lambda>i. HttpThrew None),
      stage3 = (\<lambda>i. HttpThrew None)\<rparr>"

text \<open>An environment in which Stage 1 is answered with status 429, the first via request
  of Stage 2 delivers a route, and every other via request fails.\<close>

definition exPartialWorld :: World where
  "exPartialWorld =
     \<lparr>nearestA = HttpThrew None, nearestB = HttpThrew None,
      stage1 = HttpResp 429 (Threw None),
      stage2 = (\<lambda>i. if i = 0
                     then HttpResp 200 (Returned \<lparr>code = asc ''Ok'',
                            resp_routes = Some [exRoute 5000 600], message = None\<rparr>)
                     else HttpThrew None),
      stage3 = (\<lambda>i. HttpThrew None)\<rparr>"

chapter \<open>Properties\<close>

section \<open>Selection state\<close>

text \<open>
  Claim C9. For every index \<open>k\<close> and every prior state, \<^verbatim>\<open>selectRouteOnly(k)\<close> yields
  the selection state with \<open>selectedRoute = k\<close> and \<open>showAllRoutes = false\<close>, and the show-all
  toggle flips \<open>showAllRoutes\<close> while it leaves \<open>selectedRoute\<close> unchanged. Neither
  touches the route set.
\<close>

theorem selection_transitions:
  "selectedRoute (selectRouteOnly k s) = k
   \<and> showAllRoutes (selectRouteOnly k s) = False
   \<and> routes (selectRouteOnly k s) = routes s
   \<and> showAllRoutes (toggleShowAll s) = (\<not> showAllRoutes s)
   \<and> selectedRoute (toggleShowAll s) = selectedRoute s
   \<and> routes (toggleShowAll s) = routes s"
  by (simp add: selectRouteOnly_def toggleShowAll_def)

theorem selection_transitions_witness:
  "selectedRoute (selectRouteOnly 3 initialState) = 3
   \<and> showAllRoutes (selectRouteOnly 3 initialState) = False
   \<and> showAllRoutes (toggleShowAll initialState) = False
   \<and> selectedRoute (toggleShowAll (selectRouteOnly 3 initialState)) = 3
   \<and> showAllRoutes (toggleShowAll (selectRouteOnly 3 initialState)) = True"
  using selection_transitions [of 3 initialState]
        selection_transitions [of 0 "selectRouteOnly 3 initialState"]
  by (simp add: initialState_def)

section \<open>The summary bridge: suppression of repeated requests\<close>

lemma routesSignature_key:
  assumes h: "map routeKey rs' = map routeKey rs"
  shows "routesSignature rs' = routesSignature rs"
proof -
  define g :: "nat \<times> int \<times> int \<times> nat \<Rightarrow> jsstring" where
    "g = (\<lambda>k. case k of (i, d, t, n) \<Rightarrow>
            showNat i @ asc '':'' @ showInt d @ asc '':'' @ showInt t @ asc '':'' @ showNat n)"
  have r: "routesSignature xs = joinWith (asc ''|'') (map g (map routeKey xs))" for xs
    by (simp add: routesSignature_def routeKey_def g_def comp_def)
  show ?thesis by (simp only: r h)
qed

lemma showNat_nonempty: "showNat n \<noteq> []"
  by (subst showNat.simps) simp

lemma joinWith_nonempty: "x \<noteq> [] \<Longrightarrow> joinWith sep (x # xs) \<noteq> []"
  by (cases xs) simp_all

lemma routesSignature_nonempty:
  assumes "rs \<noteq> []"
  shows "routesSignature rs \<noteq> []"
proof -
  obtain r rest where rs: "rs = r # rest" using assms by (cases rs) auto
  show ?thesis
    unfolding rs routesSignature_def list.map
    by (rule joinWith_nonempty) (simp add: showNat_nonempty)
qed

lemma aiRequests_fireTimers:
  "aiRequests (fireTimers ts x) = aiRequests x + length (filter (\<lambda>t. fst t \<noteq> []) ts)"
  by (induction ts arbitrary: x) (auto simp: callGeminiAutoStart_def)

lemma exViews_eq: "routesSignature exViews = asc ''0:5200:600:0|1:5950:650:0''"
  by (simp add: exViews_def mapToViews_def Let_def bestIdxOf_def exRoute_def enumerate_eq_zip upt_rec routesSignature_def turnNodesOf_def 
      showNat.simps showInt_def mathRound_def asc_def)

text \<open>
  Claim C8. When the effect of the summary bridge runs twice and the route set is
  unchanged in between (the same index, rounded distance, rounded duration and turn
  count per route), exactly one summarization request goes out: the first run records
  the signature and sets the timer whose callback sends the request, the second run
  finds its signature equal to the recorded one and does nothing. The first run is one
  for a route set that is not the one last recorded, with the automatic summary
  switched on; the signature of a non-empty route set is never the empty string that
  the record holds at the start.
\<close>

theorem summary_once:
  assumes "autoAiEnabled s" and "routes s \<noteq> []"
    and "lastAiSignatureRef s \<noteq> routesSignature (routes s)"
    and "map routeKey rs' = map routeKey (routes s)"
  shows "autoAiEffect ((autoAiEffect s)\<lparr>routes := rs'\<rparr>) = (autoAiEffect s)\<lparr>routes := rs'\<rparr>
    \<and> routesSignature (routes s) \<noteq> []
    \<and> aiTimers (autoAiEffect s) = aiTimers s @ [(routes s, selectedRoute s)]
    \<and> aiRequests (runAiTimers (autoAiEffect ((autoAiEffect s)\<lparr>routes := rs'\<rparr>)))
        = aiRequests (runAiTimers s) + 1"
proof -
  have sig: "routesSignature rs' = routesSignature (routes s)"
    using assms(4) by (rule routesSignature_key)
  have ne: "rs' \<noteq> []" using assms(2,4) by auto
  have e1: "autoAiEffect s = s\<lparr>lastAiSignatureRef := routesSignature (routes s),
                aiTimers := aiTimers s @ [(routes s, selectedRoute s)]\<rparr>"
    using assms(1-3) by (simp add: autoAiEffect_def Let_def)
  have e2: "autoAiEffect ((autoAiEffect s)\<lparr>routes := rs'\<rparr>) = (autoAiEffect s)\<lparr>routes := rs'\<rparr>"
    using assms(1) ne sig by (simp add: e1) (simp add: autoAiEffect_def)
  show ?thesis
    using assms(2) routesSignature_nonempty [OF assms(2)]
    by (simp add: e2) (simp add: e1 runAiTimers_def aiRequests_fireTimers)
qed

theorem summary_once_witness:
  "autoAiEnabled exState \<and> routes exState \<noteq> []
   \<and> lastAiSignatureRef exState \<noteq> routesSignature (routes exState)
   \<and> aiRequests (runAiTimers (autoAiEffect ((autoAiEffect exState)\<lparr>routes := exViews\<rparr>))) = 1"
proof -
  have a: "autoAiEnabled exState" by (simp add: exState_def initialState_def)
  have b: "routes exState \<noteq> []"
    by (simp add: exState_def exViews_def mapToViews_def Let_def enumerate_eq_zip upt_rec)
  have c: "lastAiSignatureRef exState \<noteq> routesSignature (routes exState)"
    by (simp add: exState_def initialState_def exViews_eq asc_def)
  have d: "map routeKey exViews = map routeKey (routes exState)" by (simp add: exState_def)
  have e: "aiRequests (runAiTimers exState) = 0"
    by (simp add: runAiTimers_def exState_def initialState_def)
  have "aiRequests (runAiTimers (autoAiEffect ((autoAiEffect exState)\<lparr>routes := exViews\<rparr>)))
          = aiRequests (runAiTimers exState) + 1"
    using summary_once [OF a b c d] by blast
  then show ?thesis using a b c e by simp
qed

text \<open>
  Claim C10. The suppression signature is computed from the routes alone (index,
  rounded distance, rounded duration and turn count of each), never from the selected
  index: it is the same under any two selections. So, although the effect also runs
  when the selection changes, its run after a change of the selection alone (by
  \<^verbatim>\<open>selectRouteOnly\<close> or by \<^verbatim>\<open>setSelectedRoute\<close>) changes nothing and no second
  request goes out.
\<close>

theorem selection_change_no_request:
  "routesSignature (routes (s\<lparr>selectedRoute := i\<rparr>)) = routesSignature (routes (s\<lparr>selectedRoute := j\<rparr>))
   \<and> autoAiEffect (selectRouteOnly k (autoAiEffect s)) = selectRouteOnly k (autoAiEffect s)
   \<and> autoAiEffect ((autoAiEffect s)\<lparr>selectedRoute := k\<rparr>) = (autoAiEffect s)\<lparr>selectedRoute := k\<rparr>
   \<and> aiRequests (runAiTimers (autoAiEffect (selectRouteOnly k (autoAiEffect s))))
       = aiRequests (runAiTimers (autoAiEffect s))"
proof -
  have a: "autoAiEffect (selectRouteOnly k (autoAiEffect s)) = selectRouteOnly k (autoAiEffect s)"
    by (simp add: autoAiEffect_def selectRouteOnly_def Let_def)
  have b: "autoAiEffect ((autoAiEffect s)\<lparr>selectedRoute := k\<rparr>) = (autoAiEffect s)\<lparr>selectedRoute := k\<rparr>"
    by (simp add: autoAiEffect_def Let_def)
  have c: "aiRequests (runAiTimers (selectRouteOnly k (autoAiEffect s))) = aiRequests (runAiTimers (autoAiEffect s))"
    by (simp add: runAiTimers_def aiRequests_fireTimers selectRouteOnly_def)
  show ?thesis using a b c by simp
qed

theorem selection_change_no_request_witness:
  "aiRequests (runAiTimers (autoAiEffect (selectRouteOnly 1 (autoAiEffect exState)))) = 1
   \<and> aiRequests (runAiTimers (autoAiEffect exState)) = 1"
proof -
  have "routes exState \<noteq> []"
    by (simp add: exState_def exViews_def mapToViews_def Let_def enumerate_eq_zip upt_rec)
  moreover have "lastAiSignatureRef exState \<noteq> routesSignature (routes exState)"
    by (simp add: exState_def initialState_def exViews_eq asc_def)
  ultimately have one: "aiRequests (runAiTimers (autoAiEffect exState)) = 1"
    by (simp add: autoAiEffect_def runAiTimers_def callGeminiAutoStart_def exState_def initialState_def Let_def)
  have "aiRequests (runAiTimers (autoAiEffect (selectRouteOnly 1 (autoAiEffect exState))))
          = aiRequests (runAiTimers (autoAiEffect exState))"
    using selection_change_no_request [where s = exState and k = 1 and i = 0 and j = 1] by blast
  with one show ?thesis by (simp only:)
qed

section \<open>Layers of the routes\<close>

lemma exViews_val:
  "exViews =
    [\<lparr>view_id = asc ''route-0'', index = 0, coords = [\<lparr>latitude = 43.2, longitude = 76.9\<rparr>, \<lparr>latitude = 43.3, longitude = 77\<rparr>],
      view_distance = 5200.4, view_duration = 600, color = asc ''#0A84FF'', isPrimary = True, turnNodes = []\<rparr>,
     \<lparr>view_id = asc ''route-1'', index = 1, coords = [\<lparr>latitude = 43.2, longitude = 76.9\<rparr>, \<lparr>latitude = 43.3, longitude = 77\<rparr>],
      view_distance = 5950, view_duration = 650, color = asc ''#32D74B'', isPrimary = False, turnNodes = []\<rparr>]"
  by (simp add: exViews_def mapToViews_def Let_def bestIdxOf_def exRoute_def enumerate_eq_zip upt_rec
      turnNodesOf_def toXY_def COLORS_def showNat.simps asc_def)

text \<open>
  Claim C3, as stated, fails: with all routes shown, a selected route that is not the
  primary one gets layer 1, below the layer 2 of a primary route that is not selected,
  and it is drawn first. (The comment in the source says so: with all routes shown the
  optimal route is always on top.)
\<close>

theorem layers_as_claimed_counterexample:
  "showAllRoutes exSelected
   \<and> isPrimary (routes exSelected ! 0) \<and> index (routes exSelected ! 0) \<noteq> selectedRoute exSelected
   \<and> \<not> isPrimary (routes exSelected ! 1) \<and> index (routes exSelected ! 1) = selectedRoute exSelected
   \<and> z (getRouteAppearance exSelected (routes exSelected ! 1)) < z (getRouteAppearance exSelected (routes exSelected ! 0))
   \<and> routesSorted exSelected = [routes exSelected ! 1, routes exSelected ! 0]"
  by (simp add: exSelected_def exState_def initialState_def exViews_val getRouteAppearance_def
      routesSorted_def drawKey_def)

text \<open>
  Claim C3, amended. With all routes shown, the layer \<open>z\<close> ranks the routes, from
  highest to lowest: the primary route (selected or not, layer 2), then a selected
  route that is not primary (layer 1), then every other route (layer 0). With only the
  selected route shown every route gets layer 2 and only the selected one is visible.
  \<^verbatim>\<open>routesSorted\<close> is the route list reordered by ascending draw key, which with all
  routes shown is that layer.
\<close>

theorem layers:
  "z (getRouteAppearance s r) =
     (if showAllRoutes s then (if isPrimary r then 2 else if index r = selectedRoute s then 1 else 0) else 2)
   \<and> shouldShow (getRouteAppearance s r) = (showAllRoutes s \<or> index r = selectedRoute s)
   \<and> drawKey s r =
     (if showAllRoutes s then z (getRouteAppearance s r) else if index r = selectedRoute s then 2 else 0)
   \<and> sorted (map (drawKey s) (routesSorted s))
   \<and> mset (routesSorted s) = mset (routes s)
   \<and> visibleRoutes s = filter (\<lambda>r. shouldShow (getRouteAppearance s r)) (routesSorted s)"
  by (simp add: getRouteAppearance_def drawKey_def routesSorted_def visibleRoutes_def Let_def)

theorem layers_witness:
  "z (getRouteAppearance exState (routes exState ! 0)) = 2
   \<and> z (getRouteAppearance exState (routes exState ! 1)) = 0
   \<and> z (getRouteAppearance (toggleShowAll exState) (routes exState ! 1)) = 2
   \<and> visibleRoutes (toggleShowAll exState) = [routes exState ! 0]"
  using layers [of exState "routes exState ! 0"] layers [of exState "routes exState ! 1"]
    layers [of "toggleShowAll exState" "routes exState ! 1"]
  by (simp add: exState_def initialState_def exViews_val toggleShowAll_def routesSorted_def drawKey_def
      getRouteAppearance_def visibleRoutes_def)

section \<open>Via candidates\<close>

lemma via_delta_pos:
  fixes x :: real
  shows "0 < min 0.03 (max 0.005 \<bar>x\<bar> * 0.6)"
proof -
  have "(0::real) < max 0.005 \<bar>x\<bar>" by (simp add: less_max_iff_disj)
  then show ?thesis by simp
qed

lemma via_list_distinct:
  fixes m1 m2 d1 d2 :: real
  assumes "0 < d1" and "0 < d2"
  shows "distinct
     [\<lparr>lat = m1 + d1, lon = m2\<rparr>, \<lparr>lat = m1 - d1, lon = m2\<rparr>,
      \<lparr>lat = m1, lon = m2 + d2\<rparr>, \<lparr>lat = m1, lon = m2 - d2\<rparr>,
      \<lparr>lat = m1 + d1, lon = m2 + d2\<rparr>, \<lparr>lat = m1 - d1, lon = m2 + d2\<rparr>,
      \<lparr>lat = m1 + d1, lon = m2 - d2\<rparr>, \<lparr>lat = m1 - d1, lon = m2 - d2\<rparr>,
      \<lparr>lat = m1 + d1 * 1.5, lon = m2\<rparr>, \<lparr>lat = m1, lon = m2 + d2 * 1.5\<rparr>,
      \<lparr>lat = m1 - d1 * 1.5, lon = m2\<rparr>, \<lparr>lat = m1, lon = m2 - d2 * 1.5\<rparr>]"
  using assms by simp

text \<open>
  Claim C5, as stated, fails on the offset magnitude: for the endpoints of its own
  example, \<open>(0, 0)\<close> and \<open>(0, 1)\<close>, the latitude span is 0, so the claimed magnitude
  \<open>min(0.03, 0.6 * span)\<close> is 0, but the first candidate is offset by 0.003 in latitude.
\<close>

theorem via_offset_counterexample:
  "\<bar>lat (makeViaCandidates exA exB ! 0) - (lat exA + lat exB) / 2\<bar> = 0.003
   \<and> min 0.03 (0.6 * \<bar>lat exA - lat exB\<bar>) = 0"
  by (simp add: makeViaCandidates_def exA_def exB_def Let_def)

text \<open>
  Claim C5, amended. For every pair of endpoints Stage 2 generates exactly 12 via
  candidates, offsets of the midpoint whose magnitude per axis is
  \<open>min(0.03, 0.6 * max(0.005, span of that axis))\<close> (so between 0.003 and 0.03): the four
  primary directions, the four diagonals, and four cardinal variants of 1.5 times the
  magnitude. The 12 are pairwise different, and for \<open>A = (0, 0)\<close>, \<open>B = (0, 1)\<close> all of
  them differ from \<open>A\<close> and from \<open>B\<close>.
\<close>

theorem via_candidates:
  "length (makeViaCandidates a b) = 12
   \<and> (let dLat = min 0.03 (0.6 * max 0.005 \<bar>lat a - lat b\<bar>);
           dLon = min 0.03 (0.6 * max 0.005 \<bar>lon a - lon b\<bar>)
       in 0.003 \<le> dLat \<and> dLat \<le> 0.03 \<and> 0.003 \<le> dLon \<and> dLon \<le> 0.03
          \<and> offsets a b (makeViaCandidates a b) =
            [(dLat, 0), (- dLat, 0), (0, dLon), (0, - dLon),
             (dLat, dLon), (- dLat, dLon), (dLat, - dLon), (- dLat, - dLon),
             (1.5 * dLat, 0), (0, 1.5 * dLon), (- 1.5 * dLat, 0), (0, - 1.5 * dLon)])
   \<and> distinct (makeViaCandidates a b)
   \<and> length (makeViaCandidates exA exB) = 12
   \<and> exA \<notin> set (makeViaCandidates exA exB)
   \<and> exB \<notin> set (makeViaCandidates exA exB)"
proof -
  have len: "length (makeViaCandidates a b) = 12" for a b
    by (simp add: makeViaCandidates_def Let_def)
  have offs: "(let dLat = min 0.03 (0.6 * max 0.005 \<bar>lat a - lat b\<bar>);
           dLon = min 0.03 (0.6 * max 0.005 \<bar>lon a - lon b\<bar>)
       in 0.003 \<le> dLat \<and> dLat \<le> 0.03 \<and> 0.003 \<le> dLon \<and> dLon \<le> 0.03
          \<and> offsets a b (makeViaCandidates a b) =
            [(dLat, 0), (- dLat, 0), (0, dLon), (0, - dLon),
             (dLat, dLon), (- dLat, dLon), (dLat, - dLon), (- dLat, - dLon),
             (1.5 * dLat, 0), (0, 1.5 * dLon), (- 1.5 * dLat, 0), (0, - 1.5 * dLon)])"
    by (simp add: makeViaCandidates_def offsets_def Let_def mult.commute) (simp add: min_def max_def)
  have dist: "distinct (makeViaCandidates a b)"
    unfolding makeViaCandidates_def Let_def
    by (rule via_list_distinct) (rule via_delta_pos)+
  have ex: "exA \<notin> set (makeViaCandidates exA exB) \<and> exB \<notin> set (makeViaCandidates exA exB)"
    by (simp add: makeViaCandidates_def exA_def exB_def Let_def)
  show ?thesis using len offs dist ex by blast
qed

theorem via_candidates_witness:
  "offsets exA exB (makeViaCandidates exA exB) =
     [(0.003, 0), (- 0.003, 0), (0, 0.03), (0, - 0.03),
      (0.003, 0.03), (- 0.003, 0.03), (0.003, - 0.03), (- 0.003, - 0.03),
      (0.0045, 0), (0, 0.045), (- 0.0045, 0), (0, - 0.045)]
   \<and> exA \<notin> set (makeViaCandidates exA exB)
   \<and> exB \<notin> set (makeViaCandidates exA exB)"
  using via_candidates [of exA exB] by (simp add: exA_def exB_def Let_def)

section \<open>Route acquisition\<close>

lemma firstSeen_append:
  "firstSeen f seen (xs @ ys) = firstSeen f seen xs @ firstSeen f (seen \<union> f ` set (firstSeen f seen xs)) ys"
  by (induction xs arbitrary: seen) simp_all

lemma firstSeen_fresh:
  "f ` set (firstSeen f seen xs) \<inter> seen = {}"
  by (induction xs arbitrary: seen) auto

lemma firstSeen_distinct:
  "distinct (map f (firstSeen f seen xs))"
proof (induction xs arbitrary: seen)
  case Nil
  then show ?case by simp
next
  case (Cons x xs)
  have "f x \<notin> f ` set (firstSeen f (insert (f x) seen) xs)"
    using firstSeen_fresh [of f "insert (f x) seen" xs] by blast
  then show ?case by (simp add: Cons.IH)
qed

lemma firstSeen_subseq: "subseq (firstSeen f seen xs) xs"
  by (induction xs arbitrary: seen) auto

lemma addAlternatives_firstSeen:
  assumes "length out < 5" and "seen = sigForRoute ` set out"
  shows "addAlternatives rs (out, seen) =
     (take 5 (out @ firstSeen sigForRoute seen rs),
      sigForRoute ` set (take 5 (out @ firstSeen sigForRoute seen rs)))"
  using assms
proof (induction rs arbitrary: out seen)
  case Nil
  then show ?case by simp
next
  case (Cons r rs)
  show ?case
  proof (cases "sigForRoute r \<in> seen")
    case True
    then show ?thesis using Cons.IH [OF Cons.prems] by simp
  next
    case False
    show ?thesis
    proof (cases "length (out @ [r]) \<ge> 5")
      case True
      with Cons.prems(1) have "length out = 4" by simp
      then have "take 5 (out @ r # ys) = out @ [r]" for ys by simp
      then show ?thesis using False True Cons.prems(2) by (simp add: Let_def)
    next
      case big: False
      then have l: "length (out @ [r]) < 5" by simp
      have s: "insert (sigForRoute r) seen = sigForRoute ` set (out @ [r])"
        using Cons.prems(2) by auto
      show ?thesis using False big Cons.IH [OF l s] by (simp add: Let_def)
    qed
  qed
qed

lemma viaStep_firstSeen:
  "viaStep reply (out, seen) =
     (out @ firstSeen sigForRoute seen (take 1 (usableRoutes reply)),
      seen \<union> sigForRoute ` set (firstSeen sigForRoute seen (take 1 (usableRoutes reply))))"
  by (auto simp: viaStep_def usableRoutes_def Let_def split: http.split js_result.split option.split list.split)

lemma viaLoop_firstSeen:
  assumes "length out \<le> 5" and "seen = sigForRoute ` set out"
  shows "viaLoop reply vs (out, seen) =
     (take 5 (out @ firstSeen sigForRoute seen (concat (map (\<lambda>v. take 1 (usableRoutes (reply (fst v)))) vs))),
      sigForRoute ` set (take 5 (out @ firstSeen sigForRoute seen (concat (map (\<lambda>v. take 1 (usableRoutes (reply (fst v)))) vs)))))"
  using assms
proof (induction vs arbitrary: out seen)
  case Nil
  then show ?case by simp
next
  case (Cons v vs)
  show ?case
  proof (cases "length out \<ge> 5")
    case True
    with Cons.prems show ?thesis by simp
  next
    case False
    define c where "c = firstSeen sigForRoute seen (take 1 (usableRoutes (reply (fst v))))"
    have lc: "length c \<le> 1" unfolding c_def
      by (cases "usableRoutes (reply (fst v))") (simp_all)
    have l: "length (out @ c) \<le> 5" using False lc by simp
    have s: "seen \<union> sigForRoute ` set c = sigForRoute ` set (out @ c)"
      using Cons.prems(2) by auto
    have step: "viaStep (reply (fst v)) (out, seen) = (out @ c, seen \<union> sigForRoute ` set c)"
      by (simp add: viaStep_firstSeen c_def)
    have e: "out @ firstSeen sigForRoute seen (concat (map (\<lambda>v. take 1 (usableRoutes (reply (fst v)))) (v # vs)))
        = (out @ c) @ firstSeen sigForRoute (seen \<union> sigForRoute ` set c)
                        (concat (map (\<lambda>v. take 1 (usableRoutes (reply (fst v)))) vs))"
      by (simp add: firstSeen_append c_def)
    have "viaLoop reply (v # vs) (out, seen) = viaLoop reply vs (out @ c, seen \<union> sigForRoute ` set c)"
      using False by (simp add: step)
    also note Cons.IH [OF l s]
    finally show ?thesis unfolding e .
  qed
qed


lemma stage1Block_firstSeen:
  "(case stage1Block reply of Inl msg \<Rightarrow> ([], {}) | Inr a \<Rightarrow> a) =
     (take 5 (firstSeen sigForRoute {} (usableRoutes reply)),
      sigForRoute ` set (take 5 (firstSeen sigForRoute {} (usableRoutes reply))))"
proof -
  have add: "addAlternatives rs ([], {}) =
      (take 5 (firstSeen sigForRoute {} rs), sigForRoute ` set (take 5 (firstSeen sigForRoute {} rs)))" for rs
    using addAlternatives_firstSeen [of "[]" "{}" rs] by simp
  show ?thesis
    by (simp add: stage1Block_def usableRoutes_def add res_ok_def
             split: http.split js_result.split option.split list.split)
qed

lemma via_arrivals_enumerate:
  "concat (map (\<lambda>v. take 1 (usableRoutes (reply (fst v)))) (enumerate 0 (makeViaCandidates a b)))
     = concat (map (\<lambda>i. take 1 (usableRoutes (reply i))) [0..<12])"
proof -
  have "map (\<lambda>v. take 1 (usableRoutes (reply (fst v)))) xs
      = map (\<lambda>i. take 1 (usableRoutes (reply i))) (map fst xs)" for xs :: "(nat \<times> Coord) list"
    by (simp only: map_map comp_def)
  moreover have "length (makeViaCandidates a b) = 12"
    by (simp add: makeViaCandidates_def Let_def)
  then have "map fst (enumerate 0 (makeViaCandidates a b)) = [0..<12]"
    by (simp only: map_fst_enumerate) simp
  ultimately show ?thesis by (simp only:)
qed

lemma viaLoop_vias:
  assumes "length out \<le> 5"
  shows "viaLoop reply (enumerate 0 (makeViaCandidates a b)) (out, sigForRoute ` set out) =
     (take 5 (out @ firstSeen sigForRoute (sigForRoute ` set out)
                      (concat (map (\<lambda>i. take 1 (usableRoutes (reply i))) [0..<12]))),
      sigForRoute ` set (take 5 (out @ firstSeen sigForRoute (sigForRoute ` set out)
                      (concat (map (\<lambda>i. take 1 (usableRoutes (reply i))) [0..<12])))))"
  using viaLoop_firstSeen [OF assms refl, of reply "enumerate 0 (makeViaCandidates a b)"]
  by (simp only: via_arrivals_enumerate)

lemma fetchFiveRoutes_out:
  "fst (fetchFiveRoutes w A0 B0 s) =
     (let a1 = (case stage1Block (stage1 w) of Inl msg \<Rightarrow> ([], {}) | Inr a \<Rightarrow> a);
          aH = nearestHint (nearestA w) A0;
          bH = nearestHint (nearestB w) B0
      in if length (fst a1) \<ge> 5 then take 5 (fst a1)
         else
           (let a2 = viaLoop (stage2 w) (enumerate 0 (makeViaCandidates (fst aH) (fst bH))) a1;
                a3 = (if length (fst a2) < 5 then
                        viaLoop (stage3 w) (enumerate 0 (makeViaCandidates
                               \<lparr>lat = lat (fst aH) + 0.01, lon = lon (fst aH) + 0.01\<rparr>
                               \<lparr>lat = lat (fst bH) - 0.01, lon = lon (fst bH) - 0.01\<rparr>)) a2
                      else a2)
            in take 5 (fst a3)))"
  by (simp add: fetchFiveRoutes_def Let_def split: sum.split)

lemma take_firstSeen_append:
  "n \<le> length (firstSeen f seen xs) \<Longrightarrow>
     take n (firstSeen f seen (xs @ ys)) = take n (firstSeen f seen xs)"
  by (simp add: firstSeen_append)

lemma fetchFiveRoutes_arrivals:
  "fst (fetchFiveRoutes w A0 B0 s) = take 5 (firstSeen sigForRoute {} (arrivals w))"
proof -
  define S1 where "S1 = usableRoutes (stage1 w)"
  define S2 where "S2 = concat (map (\<lambda>i. take 1 (usableRoutes (stage2 w i))) [0..<12])"
  define S3 where "S3 = concat (map (\<lambda>i. take 1 (usableRoutes (stage3 w i))) [0..<12])"
  define F where "F = (\<lambda>xs. firstSeen sigForRoute {} xs)"
  define G where "G = (\<lambda>out xs. firstSeen sigForRoute (sigForRoute ` set out) xs)"
  have arr: "arrivals w = S1 @ S2 @ S3" by (simp add: arrivals_def S1_def S2_def S3_def)
  have F_app: "F (xs @ ys) = F xs @ G (F xs) ys" for xs ys
    by (simp add: F_def G_def firstSeen_append)
  define o1 where "o1 = take 5 (F S1)"
  define o2 where "o2 = take 5 (o1 @ G o1 S2)"
  define o3 where "o3 = take 5 (o2 @ G o2 S3)"
  have l1: "length o1 \<le> 5" and l2: "length o2 \<le> 5" by (simp_all add: o1_def o2_def)
  have a1: "(case stage1Block (stage1 w) of Inl msg \<Rightarrow> ([], {}) | Inr a \<Rightarrow> a) = (o1, sigForRoute ` set o1)"
    unfolding o1_def F_def S1_def by (rule stage1Block_firstSeen)
  have a2: "viaLoop (stage2 w) (enumerate 0 (makeViaCandidates a b)) (o1, sigForRoute ` set o1)
      = (o2, sigForRoute ` set o2)" for a b
    unfolding o2_def G_def S2_def by (rule viaLoop_vias [OF l1])
  have a3: "viaLoop (stage3 w) (enumerate 0 (makeViaCandidates a b)) (o2, sigForRoute ` set o2)
      = (o3, sigForRoute ` set o3)" for a b
    unfolding o3_def G_def S3_def by (rule viaLoop_vias [OF l2])
  have out: "fst (fetchFiveRoutes w A0 B0 s) =
      (if 5 \<le> length o1 then take 5 o1 else if length o2 < 5 then take 5 o3 else take 5 o2)"
    unfolding fetchFiveRoutes_out Let_def a1 fst_conv a2 a3 by simp
  have eq: "fst (fetchFiveRoutes w A0 B0 s) = take 5 (F (S1 @ S2 @ S3))"
  proof (cases "5 \<le> length (F S1)")
    case True
    then have "take 5 (F (S1 @ S2 @ S3)) = take 5 (F S1)"
      unfolding F_def by (rule take_firstSeen_append)
    moreover have "5 \<le> length o1" using True by (simp add: o1_def)
    ultimately show ?thesis by (simp add: out o1_def)
  next
    case False
    then have t1: "o1 = F S1" by (simp add: o1_def)
    have n1: "\<not> 5 \<le> length o1" using False by (simp add: t1)
    have o2': "o2 = take 5 (F (S1 @ S2))" by (simp only: o2_def t1 F_app)
    show ?thesis
    proof (cases "5 \<le> length (F (S1 @ S2))")
      case True
      have "take 5 (F ((S1 @ S2) @ S3)) = take 5 (F (S1 @ S2))"
        unfolding F_def using True [unfolded F_def] by (rule take_firstSeen_append)
      moreover have "\<not> length o2 < 5" using True by (simp add: o2')
      ultimately show ?thesis using n1 by (simp add: out o2')
    next
      case f2: False
      then have t2: "o2 = F (S1 @ S2)" by (simp add: o2')
      have "o3 = take 5 (F ((S1 @ S2) @ S3))" by (simp only: o3_def t2 F_app)
      moreover have "length o2 < 5" using f2 by (simp add: t2)
      ultimately show ?thesis using n1 by (simp add: out)
    qed
  qed
  show ?thesis by (simp only: eq arr F_def)
qed

lemma sig_exRoute:
  "sigForRoute (exRoute d t) =
     showInt (mathRound d) @ asc ''|'' @ showInt (mathRound t) @ asc ''|76.900,43.200|77.000,43.300|2''"
  by (simp add: sigForRoute_def exRoute_def sigPoint_def firstCoord_def lastCoord_def toFixed3_def
        showNat.simps asc_def Let_def)

text \<open>
  Claim C1. For every pair of endpoints (distinct or not), every state and every
  behaviour of the routing service, the route list that \<^verbatim>\<open>fetchFiveRoutes\<close> returns has
  length at most 5, no two of its entries have equal signatures \<^verbatim>\<open>sigForRoute\<close>, and
  its entries are in arrival order: the list is the first five of the arriving
  candidates that are the first with their signature, so a subsequence of the arrivals.
\<close>

theorem fetchFiveRoutes_unique:
  "length (fst (fetchFiveRoutes w A0 B0 s)) \<le> 5
   \<and> distinct (map sigForRoute (fst (fetchFiveRoutes w A0 B0 s)))
   \<and> fst (fetchFiveRoutes w A0 B0 s) = take 5 (firstSeen sigForRoute {} (arrivals w))
   \<and> subseq (fst (fetchFiveRoutes w A0 B0 s)) (arrivals w)"
proof -
  have d: "distinct (map sigForRoute (take 5 (firstSeen sigForRoute {} (arrivals w))))"
    unfolding take_map [symmetric] by (rule distinct_take) (rule firstSeen_distinct)
  have sub: "subseq (take 5 (firstSeen sigForRoute {} (arrivals w))) (arrivals w)"
    by (rule subseq_order.order_trans [OF prefix_imp_subseq [OF take_is_prefix] firstSeen_subseq])
  show ?thesis using d sub by (simp add: fetchFiveRoutes_arrivals)
qed

theorem fetchFiveRoutes_unique_witness:
  "fst (fetchFiveRoutes exWorld exA exB exReady) = [exRoute 5000 600, exRoute 5100 650, exRoute 5200 700]
   \<and> sigForRoute (exRoute 5000.2 600.1) = sigForRoute (exRoute 5000 600)"
proof -
  have a: "arrivals exWorld = [exRoute 5000 600, exRoute 5000.2 600.1, exRoute 5100 650, exRoute 5200 700]"
    by (simp add: arrivals_def exWorld_def usableRoutes_def res_ok_def upt_rec)
  have f: "firstSeen sigForRoute {} (arrivals exWorld) = [exRoute 5000 600, exRoute 5100 650, exRoute 5200 700]"
    unfolding a by (simp add: sig_exRoute mathRound_def showInt_def showNat.simps asc_def)
  have s: "sigForRoute (exRoute 5000.2 600.1) = sigForRoute (exRoute 5000 600)"
    by (simp add: sig_exRoute mathRound_def)
  show ?thesis using fetchFiveRoutes_unique [of exWorld exA exB exReady] f s by simp
qed

section \<open>The primary route\<close>

lemma hd_insort_key:
  "hd (insort_key f x ys) = (if ys = [] then x else if f x \<le> f (hd ys) then x else hd ys)"
  by (cases ys) auto

lemma sort_key_Nil_iff: "sort_key f xs = [] \<longleftrightarrow> xs = []"
  by (metis length_0_conv length_sort)

lemma hd_sort_key_first_min:
  fixes xs :: "(nat \<times> real) list"
  assumes "xs \<noteq> []" and "sorted_wrt (<) (map fst xs)"
  shows "hd (sort_key snd xs) \<in> set xs
     \<and> (\<forall>q \<in> set xs. snd (hd (sort_key snd xs)) \<le> snd q
            \<and> (snd q = snd (hd (sort_key snd xs)) \<longrightarrow> fst (hd (sort_key snd xs)) \<le> fst q))"
  using assms
proof (induction xs)
  case Nil
  then show ?case by simp
next
  case (Cons x xs)
  show ?case
  proof (cases "xs = []")
    case True
    then show ?thesis by simp
  next
    case False
    let ?p = "hd (sort_key snd xs)"
    from Cons.prems have sw: "sorted_wrt (<) (map fst xs)" and lt: "\<forall>q \<in> set xs. fst x < fst q"
      by auto
    from Cons.IH [OF False sw]
    have ih: "?p \<in> set xs"
      "\<forall>q \<in> set xs. snd ?p \<le> snd q \<and> (snd q = snd ?p \<longrightarrow> fst ?p \<le> fst q)"
      by auto
    have ne: "sort_key snd xs \<noteq> []" using False by (simp add: sort_key_Nil_iff)
    have hd: "hd (sort_key snd (x # xs)) = (if snd x \<le> snd ?p then x else ?p)"
      using ne by (simp add: hd_insort_key)
    show ?thesis
    proof (cases "snd x \<le> snd ?p")
      case True
      with hd have h: "hd (sort_key snd (x # xs)) = x" by simp
      show ?thesis unfolding h using ih lt True by (auto intro: order_trans less_imp_le)
    next
      case False
      with hd have h: "hd (sort_key snd (x # xs)) = ?p" by simp
      show ?thesis unfolding h using ih False by auto
    qed
  qed
qed

lemma enumerate_durations_fst:
  "map fst (map (\<lambda>(i, r). (i, duration r)) (enumerate n l)) = [n..<n + length l]"
  by (simp add: comp_def case_prod_unfold map_fst_enumerate[unfolded comp_def])

lemma enumerate_durations_mem:
  "(j, d) \<in> set (map (\<lambda>(i, r). (i, duration r)) (enumerate 0 l)) \<longleftrightarrow> j < length l \<and> d = duration (l ! j)"
proof
  assume "(j, d) \<in> set (map (\<lambda>(i, r). (i, duration r)) (enumerate 0 l))"
  then obtain r where "(j, r) \<in> set (enumerate 0 l)" and "d = duration r" by auto
  then show "j < length l \<and> d = duration (l ! j)" by (simp add: in_set_enumerate_eq)
next
  assume "j < length l \<and> d = duration (l ! j)"
  then have "(j, l ! j) \<in> set (enumerate 0 l)" and "d = duration (l ! j)"
    by (simp_all add: in_set_enumerate_eq)
  then show "(j, d) \<in> set (map (\<lambda>(i, r). (i, duration r)) (enumerate 0 l))" by force
qed

lemma bestIdxOf_first_min:
  assumes "l \<noteq> []"
  shows "bestIdxOf l < length l
     \<and> (\<forall>j < length l. duration (l ! bestIdxOf l) \<le> duration (l ! j))
     \<and> (\<forall>j < bestIdxOf l. duration (l ! bestIdxOf l) < duration (l ! j))"
proof -
  define xs where "xs = map (\<lambda>(i, r). (i, duration r)) (enumerate 0 l)"
  define p where "p = hd (sort_key snd xs)"
  have ne: "xs \<noteq> []" using assms by (cases l) (simp_all add: xs_def)
  have sw: "sorted_wrt (<) (map fst xs)"
    unfolding xs_def by (simp only: enumerate_durations_fst) simp
  from hd_sort_key_first_min [OF ne sw]
  have mem: "p \<in> set xs"
    and mn: "\<forall>q \<in> set xs. snd p \<le> snd q \<and> (snd q = snd p \<longrightarrow> fst p \<le> fst q)"
    unfolding p_def by blast+
  have b: "bestIdxOf l = fst p"
    using ne by (simp add: bestIdxOf_def sort_key_Nil_iff xs_def [symmetric] p_def split: list.split)
  obtain i d where pid: "p = (i, d)" by (cases p)
  from mem have "(i, d) \<in> set (map (\<lambda>(i, r). (i, duration r)) (enumerate 0 l))"
    unfolding pid xs_def .
  then have i: "i < length l" "d = duration (l ! i)"
    unfolding enumerate_durations_mem by simp_all
  have bi: "bestIdxOf l = i" using b pid by simp
  have all: "duration (l ! i) \<le> duration (l ! j) \<and> (duration (l ! j) = duration (l ! i) \<longrightarrow> i \<le> j)"
    if "j < length l" for j
  proof -
    have "(j, duration (l ! j)) \<in> set xs"
      unfolding xs_def enumerate_durations_mem using that by simp
    with mn have "snd p \<le> duration (l ! j) \<and> (duration (l ! j) = snd p \<longrightarrow> fst p \<le> j)"
      by fastforce
    then show ?thesis by (simp add: pid i(2))
  qed
  have strict: "duration (l ! i) < duration (l ! j)" if "j < i" for j
  proof -
    from that i(1) have "j < length l" by simp
    from all [OF this] that show ?thesis by (cases "duration (l ! j) = duration (l ! i)") auto
  qed
  show ?thesis unfolding bi using i(1) all strict by blast
qed

lemma filter_enumerate_index:
  "filter (\<lambda>p. fst p = b) (enumerate n xs) = (if n \<le> b \<and> b < n + length xs then [(b, xs ! (b - n))] else [])"
proof (induction xs arbitrary: n)
  case Nil
  then show ?case by simp
next
  case (Cons x xs)
  show ?case
    using Cons.IH [of "Suc n"] by (cases "b = n") (auto simp: Suc_diff_le nth_Cons')
qed

lemma mapToViews_primary:
  "j < length (fst (mapToViews l)) \<Longrightarrow> isPrimary (fst (mapToViews l) ! j) = (j = snd (mapToViews l))"
  by (simp add: mapToViews_def Let_def nth_enumerate_eq)

lemma mapToViews_filter_primary:
  "filter isPrimary (fst (mapToViews l)) =
     (if bestIdxOf l < length (take 5 l) then [fst (mapToViews l) ! bestIdxOf l] else [])"
proof -
  have "filter isPrimary (fst (mapToViews l)) =
        map (\<lambda>(idx, r).
            \<lparr>view_id = asc ''route-'' @ showNat idx, index = idx, coords = map toXY (geometry r),
             view_distance = distance r, view_duration = duration r,
             color = COLORS ! (idx mod length COLORS), isPrimary = (idx = bestIdxOf l),
             turnNodes = turnNodesOf idx r\<rparr>) (filter (\<lambda>p. fst p = bestIdxOf l) (enumerate 0 (take 5 l)))"
    by (simp add: mapToViews_def Let_def filter_map comp_def case_prod_unfold)
  then show ?thesis
    by (simp add: filter_enumerate_index) (simp add: mapToViews_def Let_def nth_enumerate_eq)
qed

lemma mapToViews_primary_bounded:
  assumes "l \<noteq> []" and "length l \<le> 5"
  shows "length (fst (mapToViews l)) = length l
     \<and> snd (mapToViews l) < length l
     \<and> (\<forall>j < length l. duration (l ! snd (mapToViews l)) \<le> duration (l ! j))
     \<and> (\<forall>j < snd (mapToViews l). duration (l ! snd (mapToViews l)) < duration (l ! j))
     \<and> (\<forall>j < length l. isPrimary (fst (mapToViews l) ! j) = (j = snd (mapToViews l)))
     \<and> filter isPrimary (fst (mapToViews l)) = [fst (mapToViews l) ! snd (mapToViews l)]
     \<and> view_duration (fst (mapToViews l) ! snd (mapToViews l)) = duration (l ! snd (mapToViews l))
     \<and> index (fst (mapToViews l) ! snd (mapToViews l)) = snd (mapToViews l)"
proof -
  have s: "snd (mapToViews l) = bestIdxOf l" by (simp add: mapToViews_def Let_def)
  have t: "take 5 l = l" using assms(2) by simp
  have len: "length (fst (mapToViews l)) = length l"
    by (simp add: mapToViews_def Let_def t)
  note fm = bestIdxOf_first_min [OF assms(1)]
  have prim: "\<forall>j < length l. isPrimary (fst (mapToViews l) ! j) = (j = snd (mapToViews l))"
    using mapToViews_primary [of _ l] len by simp
  have filt: "filter isPrimary (fst (mapToViews l)) = [fst (mapToViews l) ! snd (mapToViews l)]"
    using fm by (simp add: mapToViews_filter_primary t s)
  have proj: "view_duration (fst (mapToViews l) ! snd (mapToViews l)) = duration (l ! snd (mapToViews l))
     \<and> index (fst (mapToViews l) ! snd (mapToViews l)) = snd (mapToViews l)"
    using fm by (simp add: s) (simp add: mapToViews_def Let_def t nth_enumerate_eq)
  show ?thesis using len fm prim filt proj unfolding s by blast
qed

lemma fetchFiveRoutes_length: "length (fst (fetchFiveRoutes w A0 B0 s)) \<le> 5"
  by (simp add: fetchFiveRoutes_arrivals)

lemma fetchFiveRoutes_any_state:
  "fst (fetchFiveRoutes w A0 B0 s) = fst (fetchFiveRoutes w A0 B0 s')"
  by (simp add: fetchFiveRoutes_arrivals)

lemma fetchRoutes_views:
  assumes "pointA s = Some A0" and "pointB s = Some B0"
    and "fst (fetchFiveRoutes w A0 B0 s) \<noteq> []"
  shows "routes (fetchRoutes w s) = fst (mapToViews (fst (fetchFiveRoutes w A0 B0 s)))
     \<and> selectedRoute (fetchRoutes w s) = snd (mapToViews (fst (fetchFiveRoutes w A0 B0 s)))"
proof -
  define s1 where "s1 = s\<lparr>loading := True, errorText := None, statusText := statusBuilding,
                      statusKey := StatusLoading, routes := []\<rparr>"
  have same: "fst (fetchFiveRoutes w A0 B0 s1) = fst (fetchFiveRoutes w A0 B0 s)"
    by (rule fetchFiveRoutes_any_state)
  show ?thesis
    using assms(3)
    by (simp add: fetchRoutes_def assms(1,2) Let_def case_prod_unfold s1_def [symmetric] same)
qed

text \<open>
  Claim C2. The candidate list given to \<^verbatim>\<open>mapToViews\<close> is the list that
  \<^verbatim>\<open>fetchFiveRoutes\<close> returned, and \<^verbatim>\<open>fetchRoutes\<close> passes it on only when it is not
  empty. For every such list exactly one view of the mapped result is primary, and it
  is the one of the route with the minimum duration, the lowest index among ties:
  \<^verbatim>\<open>bestIdx\<close> is an index of the list, no route is faster than the one at \<^verbatim>\<open>bestIdx\<close>,
  every route before it is strictly slower, and view \<open>j\<close> is primary exactly when \<open>j\<close>
  is \<^verbatim>\<open>bestIdx\<close>. The result is a function of the list. \<^verbatim>\<open>fetchRoutes\<close> stores these
  views as the routes and \<^verbatim>\<open>bestIdx\<close> as the selected route.
\<close>

theorem primary_unique:
  assumes "got = fst (fetchFiveRoutes w A0 B0 s)" and "got \<noteq> []"
  shows "length (fst (mapToViews got)) = length got
     \<and> snd (mapToViews got) < length got
     \<and> (\<forall>j < length got. duration (got ! snd (mapToViews got)) \<le> duration (got ! j))
     \<and> (\<forall>j < snd (mapToViews got). duration (got ! snd (mapToViews got)) < duration (got ! j))
     \<and> (\<forall>j < length got. isPrimary (fst (mapToViews got) ! j) = (j = snd (mapToViews got)))
     \<and> filter isPrimary (fst (mapToViews got)) = [fst (mapToViews got) ! snd (mapToViews got)]
     \<and> view_duration (fst (mapToViews got) ! snd (mapToViews got)) = duration (got ! snd (mapToViews got))
     \<and> index (fst (mapToViews got) ! snd (mapToViews got)) = snd (mapToViews got)
     \<and> (pointA s = Some A0 \<and> pointB s = Some B0 \<longrightarrow>
          routes (fetchRoutes w s) = fst (mapToViews got)
          \<and> selectedRoute (fetchRoutes w s) = snd (mapToViews got))"
proof -
  have five: "length got \<le> 5" unfolding assms(1) by (rule fetchFiveRoutes_length)
  note b = mapToViews_primary_bounded [OF assms(2) five]
  have call: "pointA s = Some A0 \<and> pointB s = Some B0 \<longrightarrow>
          routes (fetchRoutes w s) = fst (mapToViews got)
          \<and> selectedRoute (fetchRoutes w s) = snd (mapToViews got)"
    using fetchRoutes_views [of s A0 B0 w] assms(2) unfolding assms(1) by blast
  show ?thesis using b call by blast
qed

theorem primary_unique_witness:
  "fst (fetchFiveRoutes exTieWorld exA exB exReady) = [exRoute 5000 650, exRoute 5100 600, exRoute 5200 600]
   \<and> snd (mapToViews (fst (fetchFiveRoutes exTieWorld exA exB exReady))) = 1
   \<and> map isPrimary (routes (fetchRoutes exTieWorld exReady)) = [False, True, False]
   \<and> filter isPrimary (routes (fetchRoutes exTieWorld exReady)) = [routes (fetchRoutes exTieWorld exReady) ! 1]
   \<and> selectedRoute (fetchRoutes exTieWorld exReady) = 1"
proof -
  define got where "got = fst (fetchFiveRoutes exTieWorld exA exB exReady)"
  have a: "arrivals exTieWorld = [exRoute 5000 650, exRoute 5100 600, exRoute 5200 600]"
    by (simp add: arrivals_def exTieWorld_def usableRoutes_def res_ok_def)
  have g: "got = [exRoute 5000 650, exRoute 5100 600, exRoute 5200 600]"
    unfolding got_def fetchFiveRoutes_arrivals a
    by (simp add: sig_exRoute mathRound_def showInt_def showNat.simps asc_def)
  have ne: "got \<noteq> []" by (simp add: g)
  have pts: "pointA exReady = Some exA \<and> pointB exReady = Some exB" by (simp add: exReady_def)
  have bi: "snd (mapToViews got) = 1"
    by (simp add: g mapToViews_def Let_def bestIdxOf_def exRoute_def enumerate_eq_zip upt_rec)
  note T = primary_unique [OF got_def ne]
  have r: "routes (fetchRoutes exTieWorld exReady) = fst (mapToViews got)"
    and sel: "selectedRoute (fetchRoutes exTieWorld exReady) = snd (mapToViews got)"
    using T pts by blast+
  have f: "filter isPrimary (fst (mapToViews got)) = [fst (mapToViews got) ! snd (mapToViews got)]"
    using T by blast
  have prim: "\<forall>j < length got. isPrimary (fst (mapToViews got) ! j) = (j = snd (mapToViews got))"
    using T by blast
  have len: "length (fst (mapToViews got)) = 3" using T by (simp add: g)
  have m: "map isPrimary (fst (mapToViews got)) = [False, True, False]"
  proof (rule nth_equalityI)
    show "length (map isPrimary (fst (mapToViews got))) = length [False, True, False]"
      by (simp add: len)
  next
    fix i assume "i < length (map isPrimary (fst (mapToViews got)))"
    then have i: "i < 3" by (simp add: len)
    have lg: "length got = 3" by (simp add: g)
    have "isPrimary (fst (mapToViews got) ! i) = (i = 1)"
      using prim i unfolding bi lg by blast
    moreover have "i = 0 \<or> i = 1 \<or> i = 2" using i by auto
    ultimately show "map isPrimary (fst (mapToViews got)) ! i = [False, True, False] ! i"
      using i by (auto simp: len)
  qed
  show ?thesis
    using g bi m f unfolding got_def [symmetric] r sel by (simp add: bi)
qed


section \<open>The error text after a failed fetch\<close>

lemma stage1Block_Inl_usable:
  "stage1Block reply = Inl msg \<Longrightarrow> usableRoutes reply = []"
  by (auto simp: stage1Block_def usableRoutes_def res_ok_def
           split: http.splits js_result.splits option.splits list.splits if_splits)

lemma fetchFiveRoutes_state:
  "snd (fetchFiveRoutes w A0 B0 s) =
     (case stage1Block (stage1 w) of
        Inl msg \<Rightarrow> s\<lparr>statusText := statusAskAlternatives, statusKey := StatusLoading, errorText := Some msg\<rparr>
      | Inr a \<Rightarrow> s\<lparr>statusText := statusAskAlternatives, statusKey := StatusLoading\<rparr>)"
  by (simp add: fetchFiveRoutes_def Let_def split: sum.split)

lemma msgNoRoute_neq_429: "msgNoRoute \<noteq> msgOverloaded429"
  by (simp add: msgNoRoute_def msgOverloaded429_def)

lemma no_via_arrivals:
  assumes "\<forall>i<12. usableRoutes (reply i) = []"
  shows "concat (map (\<lambda>i. take 1 (usableRoutes (reply i))) [0..<12]) = []"
  using assms by (simp only: concat_eq_Nil_conv) simp

lemma fetchRoutes_no_route:
  assumes "pointA s = Some a" and "pointB s = Some b"
    and "stage1Block (stage1 w) = Inl msg"
    and "\<forall>i<12. usableRoutes (stage2 w i) = []"
    and "\<forall>i<12. usableRoutes (stage3 w i) = []"
  shows "fst (fetchFiveRoutes w a b s0) = []
     \<and> errorText (snd (fetchFiveRoutes w a b s0)) = Some msg
     \<and> errorText (fetchRoutes w s) = Some msgNoRoute
     \<and> alerts (fetchRoutes w s) = alerts s @ [(asc ''OSRM'', msgNoRoute)]
     \<and> routes (fetchRoutes w s) = []
     \<and> statusKey (fetchRoutes w s) = StatusError
     \<and> loading (fetchRoutes w s) = False"
proof -
  have arr: "arrivals w = []"
    using stage1Block_Inl_usable [OF assms(3)] no_via_arrivals [OF assms(4)] no_via_arrivals [OF assms(5)]
    by (simp add: arrivals_def)
  have none: "fst (fetchFiveRoutes w a b t) = []" for t
    by (simp add: fetchFiveRoutes_arrivals arr)
  have during: "errorText (snd (fetchFiveRoutes w a b t)) = Some msg" for t
    by (simp add: fetchFiveRoutes_state assms(3))
  have alerts_kept: "alerts (snd (fetchFiveRoutes w a b t)) = alerts t" for t
    by (simp add: fetchFiveRoutes_state assms(3))
  have after: "fetchRoutes w s =
      (snd (fetchFiveRoutes w a b (s\<lparr>loading := True, errorText := None, statusText := statusBuilding,
                      statusKey := StatusLoading, routes := []\<rparr>)))
        \<lparr>errorText := Some msgNoRoute, statusText := statusError, statusKey := StatusError,
         alerts := alerts s @ [(asc ''OSRM'', msgNoRoute)], loading := False\<rparr>"
    by (simp add: fetchRoutes_def assms(1,2) Let_def case_prod_unfold none alerts_kept)
  have kept: "routes (snd (fetchFiveRoutes w a b t)) = routes t" for t
    by (simp add: fetchFiveRoutes_state assms(3))
  show ?thesis using none during by (simp add: after kept)
qed

text \<open>The other path after a failed Stage 1: as soon as one via request delivers a
  route, the message of the Stage-1 error is the error text after the fetch.\<close>

lemma fetchRoutes_keeps_stage1_message:
  assumes "pointA s = Some a" and "pointB s = Some b"
    and "stage1Block (stage1 w) = Inl msg"
    and "fst (fetchFiveRoutes w a b s) \<noteq> []"
  shows "errorText (fetchRoutes w s) = Some msg
     \<and> statusKey (fetchRoutes w s) = StatusOk
     \<and> alerts (fetchRoutes w s) = alerts s
     \<and> routes (fetchRoutes w s) = fst (mapToViews (fst (fetchFiveRoutes w a b s)))"
proof -
  define s1 where "s1 = s\<lparr>loading := True, errorText := None, statusText := statusBuilding,
                      statusKey := StatusLoading, routes := []\<rparr>"
  have same: "fst (fetchFiveRoutes w a b s1) = fst (fetchFiveRoutes w a b s)"
    by (rule fetchFiveRoutes_any_state)
  have during: "errorText (snd (fetchFiveRoutes w a b s1)) = Some msg"
    by (simp add: fetchFiveRoutes_state assms(3))
  have alerts_kept: "alerts (snd (fetchFiveRoutes w a b s1)) = alerts s"
    by (simp add: fetchFiveRoutes_state assms(3) s1_def)
  show ?thesis
    using assms(4) during alerts_kept
    by (simp add: fetchRoutes_def assms(1,2) Let_def case_prod_unfold s1_def [symmetric] same)
qed

text \<open>
  Claim C4. If the Stage-1 request fails with an error and Stages 2 and 3 produce no
  candidate, the error text after the fetch should be the message of the Stage-1 error.
  The code does not do this. With both endpoints set, Stage 1 answered with status 429
  and every via request failing, \<^verbatim>\<open>fetchFiveRoutes\<close> returns no route and leaves the
  message of the 429 error as the error text; \<^verbatim>\<open>fetchRoutes\<close> then throws its own
  error, and its \<^verbatim>\<open>catch\<close> replaces the error text, and shows an alert, with the fixed
  no-route message. On the neighbouring path, where Stage 1 fails in the same way and
  one via request delivers a route, the message of the Stage-1 error is the error text
  after the fetch: the message that the \<^verbatim>\<open>catch\<close> of Stage 1 stores is lost on the one
  path on which nothing else is there to show.
\<close>

theorem stage1_error_lost:
  "stage1Block (stage1 exFailWorld) = Inl msgOverloaded429
   \<and> fst (fetchFiveRoutes exFailWorld exA exB exReady) = []
   \<and> errorText (snd (fetchFiveRoutes exFailWorld exA exB exReady)) = Some msgOverloaded429
   \<and> errorText (fetchRoutes exFailWorld exReady) = Some msgNoRoute
   \<and> alerts (fetchRoutes exFailWorld exReady) = [(asc ''OSRM'', msgNoRoute)]
   \<and> statusKey (fetchRoutes exFailWorld exReady) = StatusError
   \<and> msgNoRoute \<noteq> msgOverloaded429
   \<and> stage1Block (stage1 exPartialWorld) = Inl msgOverloaded429
   \<and> fst (fetchFiveRoutes exPartialWorld exA exB exReady) = [exRoute 5000 600]
   \<and> errorText (fetchRoutes exPartialWorld exReady) = Some msgOverloaded429
   \<and> statusKey (fetchRoutes exPartialWorld exReady) = StatusOk
   \<and> alerts (fetchRoutes exPartialWorld exReady) = []"
proof -
  have a: "pointA exReady = Some exA" and b: "pointB exReady = Some exB"
    by (simp_all add: exReady_def)
  have c: "stage1Block (stage1 exFailWorld) = Inl msgOverloaded429"
    by (simp add: stage1Block_def exFailWorld_def)
  have d: "\<forall>i<12. usableRoutes (stage2 exFailWorld i) = []"
    and e: "\<forall>i<12. usableRoutes (stage3 exFailWorld i) = []"
    by (simp_all add: exFailWorld_def usableRoutes_def)
  have f: "alerts exReady = []" by (simp add: exReady_def initialState_def)
  have fail: "fst (fetchFiveRoutes exFailWorld exA exB exReady) = []
     \<and> errorText (snd (fetchFiveRoutes exFailWorld exA exB exReady)) = Some msgOverloaded429
     \<and> errorText (fetchRoutes exFailWorld exReady) = Some msgNoRoute
     \<and> alerts (fetchRoutes exFailWorld exReady) = [(asc ''OSRM'', msgNoRoute)]
     \<and> statusKey (fetchRoutes exFailWorld exReady) = StatusError"
    using fetchRoutes_no_route [OF a b c d e, of exReady] f by simp
  have c': "stage1Block (stage1 exPartialWorld) = Inl msgOverloaded429"
    by (simp add: stage1Block_def exPartialWorld_def)
  have arr: "arrivals exPartialWorld = [exRoute 5000 600]"
    by (simp add: arrivals_def exPartialWorld_def usableRoutes_def res_ok_def upt_rec)
  have got: "fst (fetchFiveRoutes exPartialWorld exA exB exReady) = [exRoute 5000 600]"
    unfolding fetchFiveRoutes_arrivals arr by simp
  have ne: "fst (fetchFiveRoutes exPartialWorld exA exB exReady) \<noteq> []"
    by (simp add: got)
  have part: "errorText (fetchRoutes exPartialWorld exReady) = Some msgOverloaded429
     \<and> statusKey (fetchRoutes exPartialWorld exReady) = StatusOk
     \<and> alerts (fetchRoutes exPartialWorld exReady) = []"
    using fetchRoutes_keeps_stage1_message [OF a b c' ne] f by simp
  show ?thesis using c fail msgNoRoute_neq_429 c' got part by blast
qed


section \<open>The suggested index\<close>













end
